theory Spec2Isabelle
  imports Complex_Main "HOL-Library.Log_Nat" "HOL-Library.Sublist"
begin

section \<open>Data model of \<^verbatim>\<open>src/App.tsx\<close>\<close>

text \<open>
  The interfaces \<^verbatim>\<open>Skill\<close>, \<^verbatim>\<open>AnalysisResult\<close> and \<^verbatim>\<open>JobRoleConfig\<close> become records. The
  nested object types of \<^verbatim>\<open>AnalysisResult\<close> (\<^verbatim>\<open>breakdown\<close>, \<^verbatim>\<open>experience\<close>, \<^verbatim>\<open>education\<close>) are
  records of their own. Field names are global in a theory, so the three fields of
  \<^verbatim>\<open>breakdown\<close> carry the suffix \<open>_bd\<close>, and the two \<^verbatim>\<open>id\<close> fields (which would hide the
  identity function) are \<open>id_role\<close> and \<open>id_result\<close>.

  A JavaScript string is a sequence of UTF-16 code units. The model uses \<^typ>\<open>string\<close>, whose
  characters are the code units U+0000 .. U+00FF; every string of the catalog and every
  pattern of the analysis is ASCII. On this range \<^verbatim>\<open>length\<close> counts exactly what
  \<^verbatim>\<open>String.prototype.length\<close> counts.
\<close>

datatype SkillType = technical | soft

record Skill =
  name :: string
  type :: SkillType
  proficiency :: int

record Breakdown =
  skills_bd :: int
  experience_bd :: int
  education_bd :: int

record Experience =
  years :: nat
  relevance :: int
  summary :: string

record Education =
  degrees :: "string list"
  certifications :: "string list"

record AnalysisResult =
  id_result :: string
  timestamp :: nat
  candidateName :: string
  jobRole :: string
  score :: int
  breakdown :: Breakdown
  skills :: "Skill list"
  experience :: Experience
  education :: Education
  recommendations :: "string list"
  rawText :: string

record JobRoleConfig =
  id_role :: string
  title :: string
  "keywords" :: "string list"
  softSkills :: "string list"
  minYears :: nat

definition JOB_ROLES :: "JobRoleConfig list" where
  "JOB_ROLES =
    [ \<lparr> id_role = ''frontend'', title = ''Frontend Developer'',
        keywords = [''React'', ''TypeScript'', ''Tailwind'', ''Next.js'', ''Vite'', ''CSS'',
                    ''HTML'', ''JavaScript'', ''Redux'', ''Testing Library''],
        softSkills = [''Communication'', ''Teamwork'', ''Problem Solving'', ''Agile''],
        minYears = 3 \<rparr>,
      \<lparr> id_role = ''data-scientist'', title = ''Data Scientist'',
        keywords = [''Python'', ''R'', ''SQL'', ''Machine Learning'', ''Pandas'', ''NumPy'',
                    ''Scikit-learn'', ''TensorFlow'', ''PyTorch'', ''Statistics''],
        softSkills = [''Analytical Thinking'', ''Data Storytelling'', ''Curiosity''],
        minYears = 2 \<rparr>,
      \<lparr> id_role = ''product-manager'', title = ''Product Manager'',
        keywords = [''Roadmap'', ''Agile'', ''Scrum'', ''User Stories'',
                    ''Stakeholder Management'', ''Market Research'', ''KPIs'',
                    ''Product Discovery''],
        softSkills = [''Leadership'', ''Strategic Thinking'', ''Empathy'', ''Negotiation''],
        minYears = 5 \<rparr>,
      \<lparr> id_role = ''ux-designer'', title = ''UX Designer'',
        keywords = [''Figma'', ''Adobe XD'', ''User Research'', ''Wireframing'', ''Prototyping'',
                    ''Design Systems'', ''Accessibility'', ''Interaction Design''],
        softSkills = [''Creativity'', ''User Centricity'', ''Collaboration''],
        minYears = 3 \<rparr> ]"

text \<open>
  What \<^verbatim>\<open>analyzeResume\<close> reads from outside: \<^verbatim>\<open>crypto.randomUUID()\<close>, \<^verbatim>\<open>Date.now()\<close> and the
  successive results of \<^verbatim>\<open>Math.random()\<close> (\<open>random e i\<close> is the value of call number \<open>i\<close>,
  counted from 0).
\<close>

record Env =
  randomUUID :: string
  now :: nat
  random :: "nat \<Rightarrow> rat"

section \<open>Numbers\<close>

text \<open>
  A JavaScript Number is an IEEE 754 binary64 value. The finite ones are rationals, and
  every arithmetic operation returns the exact result rounded to the nearest binary64
  value, ties to the even significand. \<open>fl\<close> is that rounding for a 53-bit significand:
  for a positive \<open>x\<close>, \<open>expo x\<close> is the exponent \<open>e\<close> with \<open>2\<^sup>e \<le> x < 2\<^sup>e\<^sup>+\<^sup>1\<close> (lemma
  \<open>expo_bounds\<close>) and \<open>ulp x\<close> the spacing \<open>2\<^sup>e\<^sup>-\<^sup>5\<^sup>2\<close> of the binary64 values in that binade.

  The exponent range is not bounded here, and this changes no result of
  \<^verbatim>\<open>analyzeResume\<close>. Its quotients are 0 or at least \<open>1/10\<close>; a product
  \<^verbatim>\<open>Math.random() * 30\<close> in the subnormal range has the floor 0 under either rounding; and
  only \<^verbatim>\<open>years / role.minYears\<close> can exceed the largest binary64 value, for a digit run of
  more than 300 digits, where JavaScript has \<^verbatim>\<open>Infinity\<close> and \<^verbatim>\<open>Math.min(100, Infinity)\<close> is
  100, as it is for the finite quotient here (lemma \<open>relevance_reached\<close>).
\<close>

definition rne :: "rat \<Rightarrow> int" where
  "rne q =
     (let n = \<lfloor>q\<rfloor>; r = q - of_int n
      in if r < 1 / 2 then n
         else if 1 / 2 < r then n + 1
         else if even n then n else n + 1)"

definition expo :: "rat \<Rightarrow> int" where
  "expo x = (if 1 \<le> x then bitlen \<lfloor>x\<rfloor> - 1 else - bitlen (\<lceil>1 / x\<rceil> - 1))"

definition ulp :: "rat \<Rightarrow> rat" where
  "ulp x = 2 powi (expo x - 52)"

definition fl :: "rat \<Rightarrow> rat" where
  "fl x = (if x = 0 then 0 else sgn x * of_int (rne (\<bar>x\<bar> / ulp \<bar>x\<bar>)) * ulp \<bar>x\<bar>)"

definition fadd :: "rat \<Rightarrow> rat \<Rightarrow> rat" where
  "fadd a b = fl (a + b)"

definition fmul :: "rat \<Rightarrow> rat \<Rightarrow> rat" where
  "fmul a b = fl (a * b)"

definition fdiv :: "rat \<Rightarrow> rat \<Rightarrow> rat" where
  "fdiv a b = fl (a / b)"

text \<open>
  Number-to-string conversion of a non-negative integer, as a template literal does it
  for an integer-valued Number below \<open>10\<^sup>2\<^sup>1\<close>: the decimal digits.
\<close>

fun digits_of :: "nat \<Rightarrow> string" where
  "digits_of n =
     (if n < 10 then [char_of (48 + n)]
      else digits_of (n div 10) @ [char_of (48 + n mod 10)])"

declare digits_of.simps [simp del]

section \<open>Strings\<close>

definition isDigit :: "char \<Rightarrow> bool" where
  "isDigit c = (48 \<le> (of_char c :: nat) \<and> (of_char c :: nat) \<le> 57)"

text \<open>
  The white space of \<^verbatim>\<open>String.prototype.trim\<close> and of the regular expression class
  \<^verbatim>\<open>\s\<close> (WhiteSpace and LineTerminator), on the code units below U+0100: TAB, LF, VT,
  FF, CR, SP and NBSP.
\<close>

definition isWhiteSpace :: "char \<Rightarrow> bool" where
  "isWhiteSpace c = ((of_char c :: nat) \<in> {9, 10, 11, 12, 13, 32, 160})"

text \<open>
  \<^verbatim>\<open>String.prototype.toLowerCase\<close> on the code units below U+0100: the ASCII capitals and
  the capitals U+00C0 .. U+00DE (without the multiplication sign U+00D7) move up by 32.
\<close>

definition toLowerCase_char :: "char \<Rightarrow> char" where
  "toLowerCase_char c =
     (let n = (of_char c :: nat)
      in if (65 \<le> n \<and> n \<le> 90) \<or> (192 \<le> n \<and> n \<le> 222 \<and> n \<noteq> 215)
         then char_of (n + 32) else c)"

definition toLowerCase :: "string \<Rightarrow> string" where
  "toLowerCase s = map toLowerCase_char s"

text \<open>
  The canonicalisation of a regular expression with the flag \<^verbatim>\<open>i\<close> (and without
  \<^verbatim>\<open>u\<close>) turns a code unit into its upper case, unless that would turn a non-ASCII unit
  into an ASCII one. The patterns below hold ASCII letters only, and an ASCII capital is
  the canonical form of itself and of its small letter only, so the model canonicalises
  the ASCII small letters and leaves every other unit alone.
\<close>

definition canonicalize :: "char \<Rightarrow> char" where
  "canonicalize c =
     (let n = (of_char c :: nat)
      in if 97 \<le> n \<and> n \<le> 122 then char_of (n - 32) else c)"

text \<open>\<^verbatim>\<open>s.includes(k)\<close> on strings: \<open>k\<close> occurs in \<open>s\<close> as a contiguous run.\<close>

primrec includes_str :: "string \<Rightarrow> string \<Rightarrow> bool" where
  "includes_str [] k = (k = [])"
| "includes_str (c # cs) k = (prefix k (c # cs) \<or> includes_str cs k)"

definition trim :: "string \<Rightarrow> string" where
  "trim s = rev (dropWhile isWhiteSpace (rev (dropWhile isWhiteSpace s)))"

text \<open>\<^verbatim>\<open>s.split(sep)[0]\<close> for a separator of one character: the text before its first occurrence.\<close>

definition split0 :: "char \<Rightarrow> string \<Rightarrow> string" where
  "split0 sep s = takeWhile (\<lambda>c. c \<noteq> sep) s"

text \<open>\<^verbatim>\<open>xs.join(sep)\<close>.\<close>

fun join :: "string \<Rightarrow> string list \<Rightarrow> string" where
  "join sep [] = []"
| "join sep [x] = x"
| "join sep (x # y # ys) = x @ sep @ join sep (y # ys)"

text \<open>
  \<^verbatim>\<open>parseInt(s)\<close> on a string with no sign and no radix prefix: leading white space is
  skipped and the longest run of decimal digits is read; \<open>None\<close> is \<^verbatim>\<open>NaN\<close>. The only
  call of the analysis passes a string that starts with a digit run followed by white
  space or by nothing (lemma \<open>parseInt_yearPhrase\<close>), so the sign and the prefix
  \<^verbatim>\<open>0x\<close> never occur. The value is the exact integer. Binary64 holds it exactly below
  \<open>2\<^sup>5\<^sup>3\<close> (lemma \<open>fl_of_nat\<close>); for a longer digit run JavaScript keeps the nearest
  binary64 value in \<^verbatim>\<open>years\<close> and prints that one in \<^verbatim>\<open>summary\<close>, and every other field is
  the same for both, since such a value is far above every \<^verbatim>\<open>minYears\<close>.
\<close>

definition decimal :: "string \<Rightarrow> nat" where
  "decimal ds = foldl (\<lambda>acc c. 10 * acc + (of_char c - 48)) 0 ds"

definition parseInt :: "string \<Rightarrow> nat option" where
  "parseInt s =
     (let ds = takeWhile isDigit (dropWhile isWhiteSpace s)
      in if ds = [] then None else Some (decimal ds))"

section \<open>Regular expression matching\<close>

text \<open>
  \<^verbatim>\<open>text.match(re)\<close> with a global regular expression returns every match, found from left
  to right, each search starting where the last match ended. \<open>scan m k s\<close> is that loop
  for a pattern whose match at the start of a string is \<open>m\<close> (the matched text, or
  \<open>None\<close>); \<open>k\<close> counts the characters of \<open>s\<close> that still belong to the last match. The
  empty list stands for the \<^verbatim>\<open>null\<close> that \<^verbatim>\<open>match\<close> returns when nothing matches.
\<close>

fun scan :: "(string \<Rightarrow> string option) \<Rightarrow> nat \<Rightarrow> string \<Rightarrow> string list" where
  "scan m k [] = []"
| "scan m (Suc k) (c # cs) = scan m k cs"
| "scan m 0 (c # cs) =
     (case m (c # cs) of
        Some mt \<Rightarrow> mt # scan m (length mt - 1) cs
      | None \<Rightarrow> scan m 0 cs)"

text \<open>
  The match of \<^verbatim>\<open>/\d+\s+years?/i\<close> at the start of \<open>s\<close>. Both greedy runs are followed by
  a character outside their class, so giving characters back never helps and the
  backtracking matcher has one candidate: all the digits, all the white space, the four
  letters, and an \<^verbatim>\<open>s\<close> if there is one.
\<close>

definition yearPhraseAt :: "string \<Rightarrow> string option" where
  "yearPhraseAt s =
     (let ds = takeWhile isDigit s; r1 = dropWhile isDigit s;
          ws = takeWhile isWhiteSpace r1; r2 = dropWhile isWhiteSpace r1;
          w = take 4 r2; r3 = drop 4 r2
      in if ds \<noteq> [] \<and> ws \<noteq> [] \<and> map canonicalize w = ''YEAR''
         then Some (ds @ ws @ w @
                (case r3 of c # _ \<Rightarrow> if canonicalize c = CHR ''S'' then [c] else [] | [] \<Rightarrow> []))
         else None)"

text \<open>The match of \<^verbatim>\<open>/\d{4}\s*-\s*(\d{4}|Present)/i\<close> at the start of \<open>s\<close>.\<close>

definition dateRangeAt :: "string \<Rightarrow> string option" where
  "dateRangeAt s =
     (let d1 = take 4 s; r1 = drop 4 s;
          w1 = takeWhile isWhiteSpace r1; r2 = dropWhile isWhiteSpace r1
      in if length d1 = 4 \<and> list_all isDigit d1
         then (case r2 of
                 [] \<Rightarrow> None
               | c # r3 \<Rightarrow>
                   if c = CHR ''-''
                   then (let w2 = takeWhile isWhiteSpace r3; r4 = dropWhile isWhiteSpace r3
                         in if length (take 4 r4) = 4 \<and> list_all isDigit (take 4 r4)
                            then Some (d1 @ w1 @ [c] @ w2 @ take 4 r4)
                            else if map canonicalize (take 7 r4) = ''PRESENT''
                            then Some (d1 @ w1 @ [c] @ w2 @ take 7 r4)
                            else None)
                   else None)
         else None)"

section \<open>The analysis: \<^verbatim>\<open>analyzeResume\<close>\<close>

text \<open>
  Each \<^verbatim>\<open>const\<close> of the body of \<^verbatim>\<open>analyzeResume\<close> is a function of what it depends on, under
  its own name; a name that is also a field of the result carries the suffix \<open>_of\<close>.

  The role of these functions is always an entry of \<open>JOB_ROLES\<close> (lemma
  \<open>resolveRole_in_catalog\<close>), so every divisor is positive. For a role record outside the
  catalog with \<^verbatim>\<open>minYears\<close> 0 or an empty keyword list JavaScript would divide by zero
  (\<^verbatim>\<open>Infinity\<close> or \<^verbatim>\<open>NaN\<close>); the properties below are about \<^verbatim>\<open>analyzeResume\<close>, which never
  meets such a role.
\<close>

text \<open>\<^verbatim>\<open>JOB_ROLES.find(r => r.id === roleId) || JOB_ROLES[0]\<close>\<close>

definition resolveRole :: "string \<Rightarrow> JobRoleConfig" where
  "resolveRole roleId =
     (case find (\<lambda>r. id_role r = roleId) JOB_ROLES of
        Some r \<Rightarrow> r
      | None \<Rightarrow> JOB_ROLES ! 0)"

definition normalizedText :: "string \<Rightarrow> string" where
  "normalizedText text = toLowerCase text"

definition nameMatch :: "string \<Rightarrow> string" where
  "nameMatch text = trim (split0 (CHR 0x0A) text)"

definition candidateName_of :: "string \<Rightarrow> string" where
  "candidateName_of text =
     (if length (nameMatch text) < 50 then nameMatch text else ''Unknown Candidate'')"

definition foundTechSkills :: "JobRoleConfig \<Rightarrow> string \<Rightarrow> string list" where
  "foundTechSkills role text =
     filter (\<lambda>k. includes_str (normalizedText text) (toLowerCase k)) (keywords role)"

definition foundSoftSkills :: "JobRoleConfig \<Rightarrow> string \<Rightarrow> string list" where
  "foundSoftSkills role text =
     filter (\<lambda>k. includes_str (normalizedText text) (toLowerCase k)) (softSkills role)"

text \<open>
  The two \<^verbatim>\<open>map\<close> calls of the array literal run in order, so the technical skills take
  the first results of \<^verbatim>\<open>Math.random()\<close> and the soft skills the following ones.
\<close>

definition skills_of :: "(nat \<Rightarrow> rat) \<Rightarrow> JobRoleConfig \<Rightarrow> string \<Rightarrow> Skill list" where
  "skills_of rnd role text =
     map (\<lambda>(i, s). \<lparr> name = s, type = technical, proficiency = \<lfloor>fmul (rnd i) 30\<rfloor> + 70 \<rparr>)
       (enumerate 0 (foundTechSkills role text))
     @ map (\<lambda>(i, s). \<lparr> name = s, type = soft, proficiency = \<lfloor>fmul (rnd i) 20\<rfloor> + 80 \<rparr>)
       (enumerate (length (foundTechSkills role text)) (foundSoftSkills role text))"

definition yearMatches :: "string \<Rightarrow> string list" where
  "yearMatches text = scan yearPhraseAt 0 text"

definition dateRanges :: "string \<Rightarrow> string list" where
  "dateRanges text = scan dateRangeAt 0 text"

text \<open>
  \<^verbatim>\<open>parseInt(m.split(' ')[0])\<close> for a match \<open>m\<close>. The result is never \<^verbatim>\<open>NaN\<close> (lemma
  \<open>parseInt_yearPhrase\<close>); the branch for it is here only because \<open>parseInt\<close> is partial.
\<close>

definition yearsOfMatch :: "string \<Rightarrow> nat" where
  "yearsOfMatch m = (case parseInt (split0 (CHR '' '') m) of Some n \<Rightarrow> n | None \<Rightarrow> 0)"

text \<open>\<^verbatim>\<open>Math.max(x, ...xs)\<close>, the maximum of a non-empty argument list.\<close>

definition Math_max :: "nat \<Rightarrow> nat list \<Rightarrow> nat" where
  "Math_max x xs = fold max xs x"

definition years_of :: "string \<Rightarrow> nat" where
  "years_of text =
     (case yearMatches text of
        m # ms \<Rightarrow> Math_max (yearsOfMatch m) (map yearsOfMatch ms)
      | [] \<Rightarrow>
          (case dateRanges text of
             [] \<Rightarrow> 0
           | r # rs \<Rightarrow> length (r # rs) * 2))"

definition experienceRelevance :: "JobRoleConfig \<Rightarrow> string \<Rightarrow> rat" where
  "experienceRelevance role text =
     min 100 (fmul (fdiv (of_nat (years_of text)) (of_nat (minYears role))) 100)"

definition degrees_of :: "string \<Rightarrow> string list" where
  "degrees_of text =
     filter (\<lambda>d. includes_str text d)
       [''B.S.'', ''M.S.'', ''Ph.D.'', ''Bachelor'', ''Master'', ''Degree'']"

definition certifications_of :: "string \<Rightarrow> string list" where
  "certifications_of text =
     filter (\<lambda>c. includes_str text c) [''AWS'', ''Google'', ''Certified'', ''Certificate'']"

definition skillsScore :: "JobRoleConfig \<Rightarrow> string \<Rightarrow> rat" where
  "skillsScore role text =
     fmul (fdiv (of_nat (length (foundTechSkills role text)))
                (of_nat (length (keywords role)))) 100"

definition softSkillsScore :: "JobRoleConfig \<Rightarrow> string \<Rightarrow> rat" where
  "softSkillsScore role text =
     fmul (fdiv (of_nat (length (foundSoftSkills role text)))
                (of_nat (length (softSkills role)))) 100"

definition educationScore :: "string \<Rightarrow> int" where
  "educationScore text = (if length (degrees_of text) > 0 then 100 else 50)"

text \<open>The literals \<^verbatim>\<open>0.5\<close>, \<^verbatim>\<open>0.3\<close> and \<^verbatim>\<open>0.2\<close> denote the binary64 values nearest to them.\<close>

definition overallScore :: "JobRoleConfig \<Rightarrow> string \<Rightarrow> int" where
  "overallScore role text =
     \<lfloor>fadd (fadd (fmul (skillsScore role text) (fl (5 / 10)))
                 (fmul (experienceRelevance role text) (fl (3 / 10))))
           (fmul (of_int (educationScore text)) (fl (2 / 10)))\<rfloor>"

definition recommendations_of :: "JobRoleConfig \<Rightarrow> string \<Rightarrow> string list" where
  "recommendations_of role text =
     [ if of_nat (length (foundTechSkills role text)) < fdiv (of_nat (length (keywords role))) 2
       then ''Add more technical keywords like ''
            @ join '', '' (take 2 (filter (\<lambda>k. k \<notin> set (foundTechSkills role text))
                                          (keywords role)))
            @ ''.''
       else ''Great technical keyword density.'',
       if years_of text < minYears role
       then ''Highlight more relevant projects to compensate for '' @ digits_of (years_of text)
            @ '' years of experience (target: '' @ digits_of (minYears role) @ ''+).''
       else ''Experience level meets or exceeds role requirements.'',
       if \<not> includes_str (normalizedText text) ''certification''
       then ''Consider adding industry-recognized certifications to boost credibility.''
       else ''Good certification profile.'',
       if length (foundSoftSkills role text) < 2
       then ''Elaborate more on soft skills like leadership or communication in your experience section.''
       else ''Soft skills are well-represented.'',
       ''Quantify your achievements with more metrics (e.g., '' @ [CHR 0x27]
         @ ''increased revenue by 20%'' @ [CHR 0x27] @ '').'',
       ''Ensure your summary section directly aligns with the specific job description.'' ]"

definition analyzeResume :: "Env \<Rightarrow> string \<Rightarrow> string \<Rightarrow> AnalysisResult" where
  "analyzeResume env text roleId =
     (let role = resolveRole roleId
      in \<lparr> id_result = randomUUID env,
           timestamp = now env,
           candidateName = candidateName_of text,
           jobRole = title role,
           score = overallScore role text,
           breakdown =
             \<lparr> skills_bd = \<lfloor>fdiv (fadd (skillsScore role text) (softSkillsScore role text)) 2\<rfloor>,
               experience_bd = \<lfloor>experienceRelevance role text\<rfloor>,
               education_bd = educationScore text \<rparr>,
           skills = skills_of (random env) role text,
           experience =
             \<lparr> years = years_of text,
               relevance = \<lfloor>experienceRelevance role text\<rfloor>,
               summary = digits_of (years_of text) @ '' years of experience in related fields.'' \<rparr>,
           education =
             \<lparr> degrees = degrees_of text, certifications = certifications_of text \<rparr>,
           recommendations = recommendations_of role text,
           rawText = text \<rparr>)"

section \<open>Vocabulary of the properties\<close>

text \<open>An environment for the examples: a fixed identifier and clock, every random draw \<open>1/2\<close>.\<close>

definition sampleEnv :: Env where
  "sampleEnv =
     \<lparr> randomUUID = ''3b241101-e2bb-4255-8caf-4136c566a962'', now = 1700000000000,
       random = (\<lambda>i. 1 / 2) \<rparr>"

text \<open>
  The result without the fields that \<^verbatim>\<open>analyzeResume\<close> draws from outside: \<^verbatim>\<open>id\<close>,
  \<^verbatim>\<open>timestamp\<close> and the \<^verbatim>\<open>proficiency\<close> of every skill.
\<close>

definition deterministicFields ::
  "AnalysisResult \<Rightarrow>
     string \<times> string \<times> int \<times> Breakdown \<times> (string \<times> SkillType) list \<times> Experience \<times> Education
       \<times> string list \<times> string" where
  "deterministicFields r =
     (candidateName r, jobRole r, score r, breakdown r, map (\<lambda>s. (name s, type s)) (skills r),
      experience r, education r, recommendations r, rawText r)"

text \<open>
  The relevance as the specification words it: \<open>min(100, round(years / minimumYears * 100))\<close>,
  with rounding to the nearest integer.
\<close>

definition relevance_spec :: "nat \<Rightarrow> nat \<Rightarrow> int" where
  "relevance_spec yrs minimumYears =
     min 100 (round (of_nat yrs / of_nat minimumYears * 100 :: rat))"



text \<open>
  A result of \<^verbatim>\<open>Math.random()\<close>: a binary64 value (one that rounding leaves alone) that is at
  least 0 and below 1.
\<close>

definition unitDraw :: "rat \<Rightarrow> bool" where
  "unitDraw r \<longleftrightarrow> fl r = r \<and> 0 \<le> r \<and> r < 1"

section \<open>Rounding to binary64\<close>

lemma rne_of_int: "rne (of_int n) = n"
  by (simp add: rne_def)

lemma rne_lower: "\<lfloor>q\<rfloor> \<le> rne q"
  by (simp add: rne_def Let_def)

lemma rne_upper: "rne q \<le> \<lfloor>q\<rfloor> + 1"
  by (simp add: rne_def Let_def)

lemma rne_eqI:
  assumes "\<bar>q - of_int n\<bar> < 1 / 2"
  shows "rne q = n"
proof (cases "of_int n \<le> q")
  case True
  with assms have "\<lfloor>q\<rfloor> = n" by (intro floor_unique) (simp_all add: abs_less_iff)
  with assms True show ?thesis by (simp add: rne_def Let_def abs_less_iff)
next
  case False
  with assms have "\<lfloor>q\<rfloor> = n - 1" by (intro floor_unique) (simp_all add: abs_less_iff)
  with assms False show ?thesis by (simp add: rne_def Let_def abs_less_iff)
qed

lemma rne_mono:
  assumes "p \<le> q"
  shows "rne p \<le> rne q"
proof (cases "\<lfloor>p\<rfloor> = \<lfloor>q\<rfloor>")
  case True
  with assms have "p - of_int \<lfloor>q\<rfloor> \<le> q - of_int \<lfloor>q\<rfloor>" by simp
  with True show ?thesis
    by (auto simp: rne_def Let_def)
next
  case False
  from assms have "\<lfloor>p\<rfloor> \<le> \<lfloor>q\<rfloor>" by (rule floor_mono)
  with False have "\<lfloor>p\<rfloor> + 1 \<le> \<lfloor>q\<rfloor>" by simp
  with rne_upper [of p] rne_lower [of q] show ?thesis by linarith
qed

lemma expo_bounds:
  assumes "0 < x"
  shows "2 powi (expo x) \<le> x" and "x < 2 powi (expo x + 1)"
proof -
  have "2 powi (expo x) \<le> x \<and> x < 2 powi (expo x + 1)"
  proof (cases "1 \<le> x")
    case True
    define n where "n = \<lfloor>x\<rfloor>"
    from True have n: "0 < n" by (simp add: n_def)
    from bitlen_bounds [OF n] have lo: "2 ^ nat (bitlen n - 1) \<le> n" and hi: "n < 2 ^ nat (bitlen n)"
      by simp_all
    from n have b1: "1 \<le> bitlen n" by (simp add: bitlen_alt_def)
    have e: "expo x = bitlen n - 1" using True by (simp add: expo_def n_def)
    have "(2::rat) powi (bitlen n - 1) = of_int (2 ^ nat (bitlen n - 1))"
      using b1 by (simp add: power_int_nonneg_exp)
    also have "\<dots> \<le> of_int n" using lo by (simp only: of_int_le_iff)
    also have "\<dots> \<le> x" by (simp add: n_def)
    finally have A: "2 powi (expo x) \<le> x" by (simp add: e)
    have "x < of_int (n + 1)" unfolding n_def by linarith
    also have "\<dots> \<le> of_int (2 ^ nat (bitlen n))" using hi by (simp only: of_int_le_iff zless_imp_add1_zle)
    also have "\<dots> = 2 powi (bitlen n)" using b1 by (simp add: power_int_nonneg_exp)
    finally have B: "x < 2 powi (expo x + 1)" by (simp add: e)
    from A B show ?thesis ..
  next
    case False
    define y where "y = 1 / x"
    define c where "c = \<lceil>y\<rceil> - 1"
    from False assms have y1: "1 < y" by (simp add: y_def)
    then have c: "0 < c" by (simp add: c_def less_ceiling_iff)
    from bitlen_bounds [OF c] have lo: "2 ^ nat (bitlen c - 1) \<le> c" and hi: "c < 2 ^ nat (bitlen c)"
      by simp_all
    from c have b1: "1 \<le> bitlen c" by (simp add: bitlen_alt_def)
    have e: "expo x = - bitlen c" using False by (simp add: expo_def c_def y_def)
    have "y \<le> of_int (c + 1)" unfolding c_def by linarith
    also have "\<dots> \<le> of_int (2 ^ nat (bitlen c))" using hi by (simp only: of_int_le_iff zless_imp_add1_zle)
    also have "\<dots> = 2 powi (bitlen c)" using b1 by (simp add: power_int_nonneg_exp)
    finally have "y \<le> 2 powi (bitlen c)" .
    then have "1 / 2 powi (bitlen c) \<le> 1 / y"
      using y1 by (simp add: frac_le)
    then have A: "2 powi (expo x) \<le> x"
      using assms by (simp add: e y_def power_int_minus_divide)
    have "(2::rat) powi (bitlen c - 1) = of_int (2 ^ nat (bitlen c - 1))"
      using b1 by (simp add: power_int_nonneg_exp)
    also have "\<dots> \<le> of_int c" using lo by (simp only: of_int_le_iff)
    also have "\<dots> < y" unfolding c_def by linarith
    finally have "2 powi (bitlen c - 1) < y" .
    then have "1 / y < 1 / 2 powi (bitlen c - 1)"
      by (simp add: frac_less2)
    then have B: "x < 2 powi (expo x + 1)"
      using assms by (simp add: e y_def power_int_minus_divide [symmetric])
    from A B show ?thesis ..
  qed
  then show "2 powi (expo x) \<le> x" and "x < 2 powi (expo x + 1)" by simp_all
qed


lemma powi2_less_cancel:
  assumes "(2::rat) powi a < 2 powi b"
  shows "a < b"
proof (rule ccontr)
  assume "\<not> a < b"
  then have "b \<le> a" by simp
  then have "(2::rat) powi b \<le> 2 powi a" by (rule power_int_increasing) simp
  with assms show False by simp
qed

lemma expo_unique:
  assumes "0 < x" and "2 powi e \<le> x" and "x < 2 powi (e + 1)"
  shows "expo x = e"
proof -
  from expo_bounds(1) [OF assms(1)] assms(3) have "(2::rat) powi expo x < 2 powi (e + 1)"
    by linarith
  then have 1: "expo x < e + 1" by (rule powi2_less_cancel)
  from assms(2) expo_bounds(2) [OF assms(1)] have "(2::rat) powi e < 2 powi (expo x + 1)"
    by linarith
  then have "e < expo x + 1" by (rule powi2_less_cancel)
  with 1 show ?thesis by simp
qed

lemma expo_mono:
  assumes "0 < x" and "x \<le> y"
  shows "expo x \<le> expo y"
proof -
  from assms have y: "0 < y" by simp
  from expo_bounds(1) [OF assms(1)] assms(2) have "2 powi expo x \<le> y" by linarith
  with expo_bounds(2) [OF y] have "(2::rat) powi expo x < 2 powi (expo y + 1)"
    by linarith
  then have "expo x < expo y + 1" by (rule powi2_less_cancel)
  then show ?thesis by simp
qed

lemma ulp_pos: "0 < ulp x"
  by (simp add: ulp_def)

lemma fl_pos: "0 < x \<Longrightarrow> fl x = of_int (rne (x / ulp x)) * ulp x"
  by (simp add: fl_def)

lemma fl_eval:
  assumes "0 < x" and "2 powi e \<le> x" and "x < 2 powi (e + 1)"
  shows "fl x = of_int (rne (x / 2 powi (e - 52))) * 2 powi (e - 52)"
  using assms by (simp add: fl_pos ulp_def expo_unique)

lemma powi2_split: "(2::rat) powi e = 2 ^ 52 * 2 powi (e - 52)"
proof -
  have "(2::rat) powi e = 2 powi (52 + (e - 52))" by simp
  also have "\<dots> = 2 powi 52 * 2 powi (e - 52)" by (subst power_int_add) simp_all
  finally show ?thesis by simp
qed

lemma significand_bounds:
  assumes "0 < x"
  shows "2 ^ 52 \<le> rne (x / ulp x)" and "rne (x / ulp x) \<le> 2 ^ 53"
proof -
  have u: "0 < ulp x" by (rule ulp_pos)
  have "2 ^ 52 * ulp x \<le> x"
    using expo_bounds(1) [OF assms] powi2_split [of "expo x"] by (simp add: ulp_def)
  then have "of_int (2 ^ 52) \<le> x / ulp x"
    using u by (simp add: pos_le_divide_eq)
  from rne_mono [OF this] show "2 ^ 52 \<le> rne (x / ulp x)"
    by (simp only: rne_of_int)
  have "x < 2 ^ 52 * ulp x * 2"
    using expo_bounds(2) [OF assms] powi2_split [of "expo x"]
    by (simp add: ulp_def power_int_add)
  then have "x / ulp x \<le> of_int (2 ^ 53)"
    using u by (simp add: pos_divide_le_eq)
  from rne_mono [OF this] show "rne (x / ulp x) \<le> 2 ^ 53"
    by (simp only: rne_of_int)
qed

lemma fl_bounds:
  assumes "0 < x"
  shows "2 powi expo x \<le> fl x" and "fl x \<le> 2 powi (expo x + 1)"
proof -
  have u: "0 < ulp x" by (rule ulp_pos)
  have "2 powi expo x = of_int (2 ^ 52) * ulp x"
    using powi2_split [of "expo x"] by (simp add: ulp_def)
  also have "\<dots> \<le> of_int (rne (x / ulp x)) * ulp x"
    using significand_bounds(1) [OF assms] u
    by (intro mult_right_mono) (simp_all only: of_int_le_iff less_imp_le)
  finally show "2 powi expo x \<le> fl x" by (simp add: fl_pos assms)
  have "of_int (rne (x / ulp x)) * ulp x \<le> of_int (2 ^ 53) * ulp x"
    using significand_bounds(2) [OF assms] u
    by (intro mult_right_mono) (simp_all only: of_int_le_iff less_imp_le)
  also have "\<dots> = 2 powi (expo x + 1)"
    using powi2_split [of "expo x"] by (simp add: ulp_def power_int_add)
  finally show "fl x \<le> 2 powi (expo x + 1)" by (simp add: fl_pos assms)
qed

lemma fl_nonneg: "0 \<le> x \<Longrightarrow> 0 \<le> fl x"
proof (cases "x = 0")
  case True
  then show ?thesis by (simp add: fl_def)
next
  case False
  assume "0 \<le> x"
  with False have x: "0 < x" by simp
  have "(0::rat) \<le> 2 powi expo x" by simp
  with fl_bounds(1) [OF x] show ?thesis by linarith
qed

lemma fl_mono:
  assumes "0 \<le> x" and "x \<le> y"
  shows "fl x \<le> fl y"
proof (cases "x = 0")
  case True
  from assms have "0 \<le> y" by simp
  then have "0 \<le> fl y" by (rule fl_nonneg)
  with True show ?thesis by (simp add: fl_def)
next
  case False
  with assms have x: "0 < x" and y: "0 < y" by simp_all
  from expo_mono [OF x assms(2)] have "expo x = expo y \<or> expo x + 1 \<le> expo y" by linarith
  then show ?thesis
  proof
    assume e: "expo x = expo y"
    then have u: "ulp x = ulp y" by (simp add: ulp_def)
    have "x / ulp y \<le> y / ulp y"
      using assms(2) ulp_pos [of y] by (simp add: divide_right_mono)
    then have "rne (x / ulp y) \<le> rne (y / ulp y)" by (rule rne_mono)
    then have "of_int (rne (x / ulp y)) * ulp y \<le> of_int (rne (y / ulp y)) * ulp y"
      using ulp_pos [of y] by (intro mult_right_mono) (simp_all only: of_int_le_iff less_imp_le)
    then show ?thesis by (simp add: fl_pos x y u)
  next
    assume "expo x + 1 \<le> expo y"
    then have "(2::rat) powi (expo x + 1) \<le> 2 powi expo y"
      by (rule power_int_increasing) simp
    with fl_bounds(2) [OF x] fl_bounds(1) [OF y] show ?thesis by linarith
  qed
qed

lemma fl_repr:
  assumes "0 < m" and "m < 2 ^ 53"
  shows "fl (of_int m * 2 powi k) = of_int m * 2 powi k"
proof -
  define x :: rat where "x = of_int m * 2 powi k"
  have x: "0 < x" using assms(1) by (simp add: x_def)
  define d where "d = k - expo x + 52"
  have "2 powi expo x \<le> x" by (rule expo_bounds(1) [OF x])
  also have "x < of_int (2 ^ 53) * 2 powi k"
    unfolding x_def using assms(2)
    by (intro mult_strict_right_mono) (simp_all only: of_int_less_iff zero_less_power_int zero_less_numeral)
  also have "\<dots> = 2 powi (53 + k)" by (subst power_int_add) simp_all
  finally have "expo x < 53 + k" by (rule powi2_less_cancel)
  then have d: "0 \<le> d" by (simp add: d_def)
  have "x / ulp x = of_int m * (2 powi k / 2 powi (expo x - 52))"
    by (simp add: x_def ulp_def)
  also have "2 powi k / (2::rat) powi (expo x - 52) = 2 powi (k - (expo x - 52))"
    by (subst power_int_diff) simp_all
  also have "k - (expo x - 52) = d" by (simp add: d_def)
  also have "(2::rat) powi d = of_int (2 ^ nat d)"
    using d by (simp add: power_int_nonneg_exp)
  finally have q: "x / ulp x = of_int (m * 2 ^ nat d)" by simp
  have "fl x = of_int (m * 2 ^ nat d) * ulp x"
    by (simp only: fl_pos [OF x] q rne_of_int)
  also have "\<dots> = x / ulp x * ulp x" by (simp only: q)
  also have "\<dots> = x" using ulp_pos [of x] by simp
  finally show ?thesis by (simp add: x_def)
qed

text \<open>
  \<open>fl\<close> rounds to a nearest value of the grid: it is monotone (\<open>fl_mono\<close>), leaves a value
  with a significand below \<open>2\<^sup>5\<^sup>3\<close> alone (\<open>fl_repr\<close>), and errs by half a spacing at most.
\<close>

lemma rne_error: "\<bar>of_int (rne q) - q\<bar> \<le> 1 / 2"
proof -
  have "of_int \<lfloor>q\<rfloor> \<le> q" and "q < of_int \<lfloor>q\<rfloor> + 1" by linarith+
  then show ?thesis by (auto simp: rne_def Let_def abs_le_iff)
qed

lemma fl_error:
  assumes "0 < x"
  shows "\<bar>fl x - x\<bar> \<le> ulp x / 2"
proof -
  have u: "0 < ulp x" by (rule ulp_pos)
  have "fl x - x = (of_int (rne (x / ulp x)) - x / ulp x) * ulp x"
    using u by (simp add: fl_pos [OF assms] algebra_simps)
  then have "\<bar>fl x - x\<bar> = \<bar>of_int (rne (x / ulp x)) - x / ulp x\<bar> * ulp x"
    using u by (simp add: abs_mult)
  also have "\<dots> \<le> 1 / 2 * ulp x"
    using rne_error [of "x / ulp x"] u by (intro mult_right_mono) simp_all
  finally show ?thesis by simp
qed

lemma fl_of_nat: "n < 2 ^ 53 \<Longrightarrow> fl (of_nat n) = of_nat n"
proof (cases "n = 0")
  case True
  then show ?thesis by (simp add: fl_def)
next
  case False
  assume "n < 2 ^ 53"
  then have "int n < 2 ^ 53" by simp
  with False fl_repr [of "int n" 0] show ?thesis by simp
qed

lemma fl_half: "fl (5 / 10) = 1 / 2"
  using fl_repr [of 1 "-1"] by (simp add: power_int_minus_divide)

lemma fl_eqI:
  assumes "0 < x" and "2 powi e \<le> x" and "x < 2 powi (e + 1)"
    and "\<bar>x / 2 powi (e - 52) - of_int n\<bar> < 1 / 2"
    and "v = of_int n * 2 powi (e - 52)"
  shows "fl x = v"
  using assms(5) fl_eval [OF assms(1-3)] rne_eqI [OF assms(4)] by simp

lemma fl_3_10: "fl (3 / 10) = 5404319552844595 / 18014398509481984"
  by (rule fl_eqI [where e = "- 2" and n = 5404319552844595]) (simp_all add: power_int_minus_divide)

lemma fl_2_10: "fl (2 / 10) = 3602879701896397 / 18014398509481984"
  by (rule fl_eqI [where e = "- 3" and n = 7205759403792794]) (simp_all add: power_int_minus_divide)

lemma fl_100_c3: "fl (100 * (5404319552844595 / 18014398509481984)) = 30"
  by (rule fl_eqI [where e = "4" and n = 8444249301319680]) (simp_all add: power_int_minus_divide)

lemma fl_100_c2: "fl (100 * (3602879701896397 / 18014398509481984)) = 20"
  by (rule fl_eqI [where e = "4" and n = 5629499534213120]) (simp_all add: power_int_minus_divide)

lemma fl_below_30: "fl ((1 - 1 / 2 ^ 53) * 30) = 8444249301319679 / 281474976710656"
  by (rule fl_eqI [where e = "4" and n = 8444249301319679]) (simp_all add: power_int_minus_divide)

lemma fl_below_20: "fl ((1 - 1 / 2 ^ 53) * 20) = 5629499534213119 / 281474976710656"
  by (rule fl_eqI [where e = "4" and n = 5629499534213119]) (simp_all add: power_int_minus_divide)


lemma double_below_one:
  assumes "fl r = r" and "0 \<le> r" and "r < 1"
  shows "r \<le> 1 - 1 / 2 ^ 53"
proof (cases "r < 1 / 2")
  case True
  then show ?thesis by simp
next
  case False
  then have r: "0 < r" and lo: "2 powi (- 1) \<le> r" by (simp_all add: power_int_minus_divide)
  from assms(3) have hi: "r < 2 powi (- 1 + 1)" by simp
  define N where "N = rne (r / 2 powi (- 1 - 52))"
  from fl_eval [OF r lo hi] assms(1) have eq: "r = of_int N * 2 powi (- 1 - 52)"
    by (simp add: N_def)
  then have eq': "r = of_int N / 2 ^ 53" by (simp add: power_int_minus_divide)
  with assms(3) have "(of_int N :: rat) < of_int (2 ^ 53)" by (simp add: pos_divide_less_eq)
  then have "N < 2 ^ 53" by (simp only: of_int_less_iff)
  then have "N \<le> 2 ^ 53 - 1" by simp
  then have "(of_int N :: rat) \<le> of_int (2 ^ 53 - 1)" by (simp only: of_int_le_iff)
  then show ?thesis by (simp add: eq' pos_divide_le_eq)
qed

lemma floor_random_30:
  assumes "fl r = r" and "0 \<le> r" and "r < 1"
  shows "0 \<le> \<lfloor>fmul r 30\<rfloor>" and "\<lfloor>fmul r 30\<rfloor> \<le> 29"
proof -
  have "0 \<le> fl (r * 30)" using assms(2) by (intro fl_nonneg) simp
  then show "0 \<le> \<lfloor>fmul r 30\<rfloor>" by (simp add: fmul_def)
  from double_below_one [OF assms] have "r * 30 \<le> (1 - 1 / 2 ^ 53) * 30" by simp
  with assms(2) have "fl (r * 30) \<le> fl ((1 - 1 / 2 ^ 53) * 30)" by (intro fl_mono) simp_all
  then have "fl (r * 30) \<le> 8444249301319679 / 281474976710656" by (simp only: fl_below_30)
  then have "fl (r * 30) < 30" by simp
  then have "\<lfloor>fl (r * 30)\<rfloor> < 30" by (simp add: floor_less_iff)
  then show "\<lfloor>fmul r 30\<rfloor> \<le> 29" by (simp add: fmul_def)
qed

lemma floor_random_20:
  assumes "fl r = r" and "0 \<le> r" and "r < 1"
  shows "0 \<le> \<lfloor>fmul r 20\<rfloor>" and "\<lfloor>fmul r 20\<rfloor> \<le> 19"
proof -
  have "0 \<le> fl (r * 20)" using assms(2) by (intro fl_nonneg) simp
  then show "0 \<le> \<lfloor>fmul r 20\<rfloor>" by (simp add: fmul_def)
  from double_below_one [OF assms] have "r * 20 \<le> (1 - 1 / 2 ^ 53) * 20" by simp
  with assms(2) have "fl (r * 20) \<le> fl ((1 - 1 / 2 ^ 53) * 20)" by (intro fl_mono) simp_all
  then have "fl (r * 20) \<le> 5629499534213119 / 281474976710656" by (simp only: fl_below_20)
  then have "fl (r * 20) < 20" by simp
  then have "\<lfloor>fl (r * 20)\<rfloor> < 20" by (simp add: floor_less_iff)
  then show "\<lfloor>fmul r 20\<rfloor> \<le> 19" by (simp add: fmul_def)
qed

section \<open>Role resolution and the fields drawn from outside\<close>

lemma resolveRole_in_catalog: "resolveRole roleId \<in> set JOB_ROLES"
proof (cases "find (\<lambda>r. id_role r = roleId) JOB_ROLES")
  case None
  then show ?thesis by (simp add: resolveRole_def) (simp add: JOB_ROLES_def)
next
  case (Some r)
  then have "r \<in> set JOB_ROLES" by (auto simp: find_Some_iff)
  with Some show ?thesis by (simp add: resolveRole_def)
qed

lemma resolveRole_unknown:
  assumes "roleId \<notin> set (map id_role JOB_ROLES)"
  shows "resolveRole roleId = JOB_ROLES ! 0"
proof -
  from assms have "find (\<lambda>r. id_role r = roleId) JOB_ROLES = None"
    by (auto simp: find_None_iff)
  then show ?thesis by (simp add: resolveRole_def)
qed

lemma resolveRole_first: "resolveRole (id_role (JOB_ROLES ! 0)) = JOB_ROLES ! 0"
  by (simp add: resolveRole_def JOB_ROLES_def)

lemma map_enumerate_snd: "map (\<lambda>x. (snd x, c)) (enumerate n xs) = map (\<lambda>k. (k, c)) xs"
  by (induction xs arbitrary: n) simp_all

lemma skills_of_names:
  "map (\<lambda>s. (name s, type s)) (skills_of rnd role text)
     = map (\<lambda>k. (k, technical)) (foundTechSkills role text)
       @ map (\<lambda>k. (k, soft)) (foundSoftSkills role text)"
  by (simp add: skills_of_def case_prod_unfold o_def map_enumerate_snd)

lemma deterministicFields_analyzeResume:
  "deterministicFields (analyzeResume env text roleId)
     = (candidateName_of text, title (resolveRole roleId), overallScore (resolveRole roleId) text,
        \<lparr> skills_bd = \<lfloor>fdiv (fadd (skillsScore (resolveRole roleId) text)
                                    (softSkillsScore (resolveRole roleId) text)) 2\<rfloor>,
          experience_bd = \<lfloor>experienceRelevance (resolveRole roleId) text\<rfloor>,
          education_bd = educationScore text \<rparr>,
        map (\<lambda>k. (k, technical)) (foundTechSkills (resolveRole roleId) text)
          @ map (\<lambda>k. (k, soft)) (foundSoftSkills (resolveRole roleId) text),
        \<lparr> years = years_of text,
          relevance = \<lfloor>experienceRelevance (resolveRole roleId) text\<rfloor>,
          summary = digits_of (years_of text) @ '' years of experience in related fields.'' \<rparr>,
        \<lparr> degrees = degrees_of text, certifications = certifications_of text \<rparr>,
        recommendations_of (resolveRole roleId) text,
        text)"
  unfolding deterministicFields_def analyzeResume_def Let_def
  by (simp only: AnalysisResult.simps skills_of_names)

text \<open>
  Claim C5. A \<^verbatim>\<open>roleId\<close> that is not the id of a catalog entry resolves to the first entry of
  the catalog: the whole result equals the result for the first entry's id when the
  identifier, the clock and the random draws are the same, and whatever they are, the two
  results agree on every field but \<^verbatim>\<open>id\<close>, \<^verbatim>\<open>timestamp\<close> and the skills' \<^verbatim>\<open>proficiency\<close>.
  Resolution has no failure: its result is an entry of the catalog.
\<close>

theorem C5_unknown_role_falls_back:
  assumes "roleId \<notin> set (map id_role JOB_ROLES)"
  shows "resolveRole roleId = JOB_ROLES ! 0
       \<and> analyzeResume env text roleId = analyzeResume env text (id_role (JOB_ROLES ! 0))
       \<and> deterministicFields (analyzeResume env text roleId)
           = deterministicFields (analyzeResume env' text (id_role (JOB_ROLES ! 0)))
       \<and> resolveRole roleId \<in> set JOB_ROLES"
proof -
  have r: "resolveRole roleId = resolveRole (id_role (JOB_ROLES ! 0))"
    using resolveRole_unknown [OF assms] by (simp only: resolveRole_first)
  have "analyzeResume env text roleId = analyzeResume env text (id_role (JOB_ROLES ! 0))"
    unfolding analyzeResume_def by (simp only: r)
  moreover have "deterministicFields (analyzeResume env text roleId)
      = deterministicFields (analyzeResume env' text (id_role (JOB_ROLES ! 0)))"
    by (simp only: deterministicFields_analyzeResume r)
  ultimately show ?thesis
    using resolveRole_unknown [OF assms] resolveRole_in_catalog [of roleId] by (simp only: simp_thms)
qed

theorem C5_witness:
  "''astronaut'' \<notin> set (map id_role JOB_ROLES)
   \<and> id_role (JOB_ROLES ! 0) = ''frontend''
   \<and> resolveRole ''astronaut'' = JOB_ROLES ! 0
   \<and> analyzeResume sampleEnv ''Ada'' ''astronaut'' = analyzeResume sampleEnv ''Ada'' ''frontend''"
proof -
  have h: "''astronaut'' \<notin> set (map id_role JOB_ROLES)" by (simp add: JOB_ROLES_def)
  have f: "id_role (JOB_ROLES ! 0) = ''frontend''" by (simp add: JOB_ROLES_def)
  from C5_unknown_role_falls_back [OF h, of sampleEnv "''Ada''" sampleEnv]
  have "resolveRole ''astronaut'' = JOB_ROLES ! 0"
    and "analyzeResume sampleEnv ''Ada'' ''astronaut''
          = analyzeResume sampleEnv ''Ada'' (id_role (JOB_ROLES ! 0))"
    by blast+
  with h f show ?thesis by (simp only: simp_thms)
qed

text \<open>
  Claim C9. Two calls of \<^verbatim>\<open>analyzeResume\<close> on the same text and \<^verbatim>\<open>roleId\<close>, under any two
  identifiers, clocks and sequences of random draws, agree on every field of the result but
  \<^verbatim>\<open>id\<close>, \<^verbatim>\<open>timestamp\<close> and the \<^verbatim>\<open>proficiency\<close> of each skill.
\<close>

theorem C9_deterministic_apart_from_drawn_fields:
  "deterministicFields (analyzeResume env text roleId)
     = deterministicFields (analyzeResume env' text roleId)"
  by (simp only: deterministicFields_analyzeResume)

theorem C9_witness:
  "deterministicFields (analyzeResume sampleEnv ''Ada'' ''frontend'')
     = deterministicFields
         (analyzeResume \<lparr> randomUUID = ''f81d4fae-7dec-41d0-a765-00a0c91e6bf6'', now = 1,
                          random = (\<lambda>i. 0) \<rparr> ''Ada'' ''frontend'')"
  by (rule C9_deterministic_apart_from_drawn_fields)

text \<open>
  Claim C10. When the first line of the text trims to the empty string (the empty text is
  one such input), \<^verbatim>\<open>candidateName\<close> is the empty string and not \<^verbatim>\<open>"Unknown Candidate"\<close>: the
  length 0 is below 50.
\<close>

theorem C10_empty_first_line_gives_empty_name:
  assumes "trim (split0 (CHR 0x0A) text) = []"
  shows "candidateName (analyzeResume env text roleId) = []
       \<and> candidateName (analyzeResume env text roleId) \<noteq> ''Unknown Candidate''"
  using assms by (simp add: analyzeResume_def Let_def candidateName_of_def nameMatch_def)

theorem C10_witness:
  "trim (split0 (CHR 0x0A) []) = []
   \<and> candidateName (analyzeResume sampleEnv [] ''frontend'') = []
   \<and> trim (split0 (CHR 0x0A) ([CHR 0x09, CHR '' '', CHR 0x0A] @ ''Ada Lovelace'')) = []
   \<and> candidateName (analyzeResume sampleEnv ([CHR 0x09, CHR '' '', CHR 0x0A] @ ''Ada Lovelace'')
        ''ux-designer'') = []"
proof -
  have h1: "trim (split0 (CHR 0x0A) []) = []" by (simp add: trim_def split0_def)
  have h2: "trim (split0 (CHR 0x0A) ([CHR 0x09, CHR '' '', CHR 0x0A] @ ''Ada Lovelace'')) = []"
    by (simp add: trim_def split0_def isWhiteSpace_def)
  from C10_empty_first_line_gives_empty_name [OF h1, of sampleEnv "''frontend''"]
    C10_empty_first_line_gives_empty_name [OF h2, of sampleEnv "''ux-designer''"] h1 h2
  show ?thesis by simp
qed

section \<open>Substring matching: skills, degrees and certifications\<close>

lemma eq_char_of_iff: "c = char_of (n::nat) \<longleftrightarrow> take_bit 8 n = of_char c"
  using char_of_eq_iff [of n c] by auto

lemmas char_eval = char_of_eq_iff eq_char_of_iff

lemma includes_str_iff_sublist: "includes_str s k \<longleftrightarrow> sublist k s"
  by (induction s) (simp_all add: sublist_Cons_right)

text \<open>
  Claim C7. The \<^verbatim>\<open>degrees\<close> list holds exactly the tokens of the degree vocabulary that occur
  in the raw text as they are written (no case folding), in the order of the vocabulary, and
  the \<^verbatim>\<open>certifications\<close> list does the same for the certification vocabulary. A token whose
  letters occur only in another casing is therefore left out.
\<close>

theorem C7_education_matching_is_case_sensitive:
  "degrees (education (analyzeResume env text roleId))
     = filter (\<lambda>d. sublist d text)
         [''B.S.'', ''M.S.'', ''Ph.D.'', ''Bachelor'', ''Master'', ''Degree'']
   \<and> certifications (education (analyzeResume env text roleId))
     = filter (\<lambda>c. sublist c text) [''AWS'', ''Google'', ''Certified'', ''Certificate'']
   \<and> subseq (degrees (education (analyzeResume env text roleId)))
         [''B.S.'', ''M.S.'', ''Ph.D.'', ''Bachelor'', ''Master'', ''Degree'']
   \<and> subseq (certifications (education (analyzeResume env text roleId)))
         [''AWS'', ''Google'', ''Certified'', ''Certificate'']
   \<and> (t \<in> set (degrees (education (analyzeResume env text roleId)))
        \<longleftrightarrow> t \<in> set [''B.S.'', ''M.S.'', ''Ph.D.'', ''Bachelor'', ''Master'', ''Degree'']
            \<and> sublist t text)
   \<and> (t \<in> set (certifications (education (analyzeResume env text roleId)))
        \<longleftrightarrow> t \<in> set [''AWS'', ''Google'', ''Certified'', ''Certificate''] \<and> sublist t text)"
proof -
  have d: "degrees (education (analyzeResume env text roleId))
      = filter (\<lambda>d. sublist d text)
          [''B.S.'', ''M.S.'', ''Ph.D.'', ''Bachelor'', ''Master'', ''Degree'']"
    by (simp add: analyzeResume_def Let_def degrees_of_def includes_str_iff_sublist)
  have c: "certifications (education (analyzeResume env text roleId))
      = filter (\<lambda>c. sublist c text) [''AWS'', ''Google'', ''Certified'', ''Certificate'']"
    by (simp add: analyzeResume_def Let_def certifications_of_def includes_str_iff_sublist)
  show ?thesis
    unfolding d c by (simp only: subseq_filter_left set_filter mem_Collect_eq simp_thms)
qed

theorem C7_witness:
  "degrees (education (analyzeResume sampleEnv ''M.S. degree, aws Certified'' ''frontend''))
     = [''M.S.'']
   \<and> certifications (education (analyzeResume sampleEnv ''M.S. degree, aws Certified'' ''frontend''))
     = [''Certified'']
   \<and> sublist (toLowerCase ''Degree'') ''M.S. degree, aws Certified''
   \<and> sublist (toLowerCase ''AWS'') ''M.S. degree, aws Certified''"
proof -
  have l: "toLowerCase ''Degree'' = ''degree''" "toLowerCase ''AWS'' = ''aws''"
    by (simp_all add: toLowerCase_def toLowerCase_char_def char_eval)
  from C7_education_matching_is_case_sensitive [of sampleEnv "''M.S. degree, aws Certified''" "''frontend''"]
  show ?thesis
    by (simp add: l includes_str_iff_sublist [symmetric])
qed


lemma skills_analyzeResume:
  "map (\<lambda>s. (name s, type s)) (skills (analyzeResume env text roleId))
     = map (\<lambda>k. (k, technical)) (foundTechSkills (resolveRole roleId) text)
       @ map (\<lambda>k. (k, soft)) (foundSoftSkills (resolveRole roleId) text)"
  by (simp add: analyzeResume_def Let_def skills_of_names)

text \<open>
  Claim C6. The skills of the result are, in order, one record for each technical keyword of
  the role whose lower-cased form occurs in the lower-cased text as a contiguous run, tagged
  \<open>technical\<close>, then one for each such soft-skill keyword, tagged \<open>soft\<close>; the name of a record is
  the keyword as the catalog writes it. So a keyword has a record of its kind exactly when
  the lower-cased text contains its lower-cased form, and nothing else restricts the match.
\<close>

theorem C6_skill_matching_is_lowercase_containment:
  "map (\<lambda>s. (name s, type s)) (skills (analyzeResume env text roleId))
     = map (\<lambda>k. (k, technical))
         (filter (\<lambda>k. sublist (toLowerCase k) (toLowerCase text)) (keywords (resolveRole roleId)))
       @ map (\<lambda>k. (k, soft))
         (filter (\<lambda>k. sublist (toLowerCase k) (toLowerCase text)) (softSkills (resolveRole roleId)))
   \<and> ((\<exists>s \<in> set (skills (analyzeResume env text roleId)). name s = k \<and> type s = technical)
        \<longleftrightarrow> k \<in> set (keywords (resolveRole roleId))
            \<and> sublist (toLowerCase k) (toLowerCase text))
   \<and> ((\<exists>s \<in> set (skills (analyzeResume env text roleId)). name s = k \<and> type s = soft)
        \<longleftrightarrow> k \<in> set (softSkills (resolveRole roleId))
            \<and> sublist (toLowerCase k) (toLowerCase text))"
proof -
  let ?r = "analyzeResume env text roleId"
  let ?P = "\<lambda>k. sublist (toLowerCase k) (toLowerCase text)"
  have eq: "map (\<lambda>s. (name s, type s)) (skills ?r)
      = map (\<lambda>k. (k, technical)) (filter ?P (keywords (resolveRole roleId)))
        @ map (\<lambda>k. (k, soft)) (filter ?P (softSkills (resolveRole roleId)))"
    by (simp add: skills_analyzeResume foundTechSkills_def foundSoftSkills_def normalizedText_def
        includes_str_iff_sublist)
  have mem: "(\<exists>s \<in> set (skills ?r). name s = k \<and> type s = c)
      \<longleftrightarrow> (k, c) \<in> set (map (\<lambda>s. (name s, type s)) (skills ?r))" for c
    by (auto simp: image_iff)
  have t: "(\<exists>s \<in> set (skills ?r). name s = k \<and> type s = technical)
      \<longleftrightarrow> k \<in> set (keywords (resolveRole roleId)) \<and> ?P k"
    unfolding mem eq by auto
  have s: "(\<exists>s \<in> set (skills ?r). name s = k \<and> type s = soft)
      \<longleftrightarrow> k \<in> set (softSkills (resolveRole roleId)) \<and> ?P k"
    unfolding mem eq by auto
  from eq t s show ?thesis by (simp only: simp_thms)
qed

theorem C6_witness:
  "map (\<lambda>s. (name s, type s))
     (skills (analyzeResume sampleEnv ''Frontend, sql; CURIOSITY'' ''data-scientist''))
     = [(''R'', technical), (''SQL'', technical), (''Curiosity'', soft)]"
proof -
  from C6_skill_matching_is_lowercase_containment
    [of sampleEnv "''Frontend, sql; CURIOSITY''" "''data-scientist''"]
  have "map (\<lambda>s. (name s, type s))
          (skills (analyzeResume sampleEnv ''Frontend, sql; CURIOSITY'' ''data-scientist''))
     = map (\<lambda>k. (k, technical))
         (filter (\<lambda>k. sublist (toLowerCase k) (toLowerCase ''Frontend, sql; CURIOSITY''))
           (keywords (resolveRole ''data-scientist'')))
       @ map (\<lambda>k. (k, soft))
         (filter (\<lambda>k. sublist (toLowerCase k) (toLowerCase ''Frontend, sql; CURIOSITY''))
           (softSkills (resolveRole ''data-scientist'')))"
    by blast
  also have "\<dots> = [(''R'', technical), (''SQL'', technical), (''Curiosity'', soft)]"
    by (simp add: resolveRole_def JOB_ROLES_def toLowerCase_def toLowerCase_char_def
        char_eval includes_str_iff_sublist [symmetric])
  finally show ?thesis .
qed

section \<open>Experience: the two regular expressions\<close>

lemma isDigit_not_isWhiteSpace: "isDigit c \<Longrightarrow> \<not> isWhiteSpace c"
  by (auto simp: isDigit_def isWhiteSpace_def)




lemma takeWhile_head_fails: "xs \<noteq> [] \<Longrightarrow> \<not> P (hd xs) \<Longrightarrow> takeWhile P (xs @ ys) = []"
  by (cases xs) simp_all

lemma dropWhile_head_fails: "xs \<noteq> [] \<Longrightarrow> \<not> P (hd xs) \<Longrightarrow> dropWhile P (xs @ ys) = xs @ ys"
  by (cases xs) simp_all

lemma takeWhile_run: 
  assumes "list_all P xs" and "ys = [] \<or> \<not> P (hd ys)"
  shows "takeWhile P (xs @ ys) = xs" and "dropWhile P (xs @ ys) = ys"
proof -
  from assms(2) have t: "takeWhile P ys = []" and d: "dropWhile P ys = ys" by (cases ys; auto)+
  from assms(1) have a: "\<And>x. x \<in> set xs \<Longrightarrow> P x" by (simp add: list_all_iff)
  show "takeWhile P (xs @ ys) = xs" using a t by (simp add: takeWhile_append2)
  show "dropWhile P (xs @ ys) = ys" using a d by (simp add: dropWhile_append2)
qed

text \<open>
  The match at a position, said without the order of the search: a non-empty run of digits,
  a non-empty run of white space, four letters that read \<open>YEAR\<close> in any casing. The optional
  \<^verbatim>\<open>s\<close> decides only how long the match is.
\<close>

lemma canonicalize_letter_not_space:
  "canonicalize c = CHR ''Y'' \<Longrightarrow> \<not> isWhiteSpace c"
  by (auto simp: canonicalize_def isWhiteSpace_def Let_def char_eval split: if_splits)

lemma yearPhraseAt_unfold:
  "yearPhraseAt s =
     (if takeWhile isDigit s \<noteq> [] \<and> takeWhile isWhiteSpace (dropWhile isDigit s) \<noteq> []
         \<and> map canonicalize (take 4 (dropWhile isWhiteSpace (dropWhile isDigit s))) = ''YEAR''
      then Some (takeWhile isDigit s @ takeWhile isWhiteSpace (dropWhile isDigit s)
              @ take 4 (dropWhile isWhiteSpace (dropWhile isDigit s))
              @ (case drop 4 (dropWhile isWhiteSpace (dropWhile isDigit s)) of
                   c # _ \<Rightarrow> if canonicalize c = CHR ''S'' then [c] else []
                 | [] \<Rightarrow> []))
      else None)"
  unfolding yearPhraseAt_def Let_def by (rule refl)

lemma yearPhraseAt_SomeD:
  assumes "yearPhraseAt s = Some m"
  shows "takeWhile isDigit s \<noteq> []"
    and "takeWhile isWhiteSpace (dropWhile isDigit s) \<noteq> []"
    and "map canonicalize (take 4 (dropWhile isWhiteSpace (dropWhile isDigit s))) = ''YEAR''"
    and "\<exists>rest. m = takeWhile isDigit s @ takeWhile isWhiteSpace (dropWhile isDigit s) @ rest"
proof -
  let ?C = "takeWhile isDigit s \<noteq> [] \<and> takeWhile isWhiteSpace (dropWhile isDigit s) \<noteq> []
         \<and> map canonicalize (take 4 (dropWhile isWhiteSpace (dropWhile isDigit s))) = ''YEAR''"
  have c: ?C
  proof (rule ccontr)
    assume "\<not> ?C"
    then have "yearPhraseAt s = None" by (subst yearPhraseAt_unfold) (simp only: if_False simp_thms)
    with assms show False by simp
  qed
  then show "takeWhile isDigit s \<noteq> []"
    and "takeWhile isWhiteSpace (dropWhile isDigit s) \<noteq> []"
    and "map canonicalize (take 4 (dropWhile isWhiteSpace (dropWhile isDigit s))) = ''YEAR''"
    by blast+
  from c have "yearPhraseAt s = Some (takeWhile isDigit s @ takeWhile isWhiteSpace (dropWhile isDigit s)
              @ take 4 (dropWhile isWhiteSpace (dropWhile isDigit s))
              @ (case drop 4 (dropWhile isWhiteSpace (dropWhile isDigit s)) of
                   c # _ \<Rightarrow> if canonicalize c = CHR ''S'' then [c] else []
                 | [] \<Rightarrow> []))"
    by (subst yearPhraseAt_unfold) (simp only: if_True simp_thms)
  with assms have "m = takeWhile isDigit s @ takeWhile isWhiteSpace (dropWhile isDigit s)
              @ take 4 (dropWhile isWhiteSpace (dropWhile isDigit s))
              @ (case drop 4 (dropWhile isWhiteSpace (dropWhile isDigit s)) of
                   c # _ \<Rightarrow> if canonicalize c = CHR ''S'' then [c] else []
                 | [] \<Rightarrow> [])"
    by simp
  then show "\<exists>rest. m = takeWhile isDigit s @ takeWhile isWhiteSpace (dropWhile isDigit s) @ rest"
    by (rule exI)
qed

lemma yearPhraseAt_iff:
  "yearPhraseAt s \<noteq> None \<longleftrightarrow>
     (\<exists>ds ws w rest. s = ds @ ws @ w @ rest \<and> ds \<noteq> [] \<and> list_all isDigit ds
        \<and> ws \<noteq> [] \<and> list_all isWhiteSpace ws \<and> map canonicalize w = ''YEAR'')"
proof
  assume "yearPhraseAt s \<noteq> None"
  then obtain m where m: "yearPhraseAt s = Some m" by blast
  note d = yearPhraseAt_SomeD(1-3) [OF m]
  have 1: "s = takeWhile isDigit s @ takeWhile isWhiteSpace (dropWhile isDigit s)
      @ take 4 (dropWhile isWhiteSpace (dropWhile isDigit s))
      @ drop 4 (dropWhile isWhiteSpace (dropWhile isDigit s))"
    by simp
  have 2: "list_all isDigit (takeWhile isDigit s)"
    and 3: "list_all isWhiteSpace (takeWhile isWhiteSpace (dropWhile isDigit s))"
    by (auto simp: list_all_iff dest: set_takeWhileD)
  from 1 d(1) 2 d(2) 3 d(3)
  have c: "s = takeWhile isDigit s @ takeWhile isWhiteSpace (dropWhile isDigit s)
      @ take 4 (dropWhile isWhiteSpace (dropWhile isDigit s))
      @ drop 4 (dropWhile isWhiteSpace (dropWhile isDigit s))
      \<and> takeWhile isDigit s \<noteq> [] \<and> list_all isDigit (takeWhile isDigit s)
      \<and> takeWhile isWhiteSpace (dropWhile isDigit s) \<noteq> []
      \<and> list_all isWhiteSpace (takeWhile isWhiteSpace (dropWhile isDigit s))
      \<and> map canonicalize (take 4 (dropWhile isWhiteSpace (dropWhile isDigit s))) = ''YEAR''"
    by (intro conjI)
  show "\<exists>ds ws w rest. s = ds @ ws @ w @ rest \<and> ds \<noteq> [] \<and> list_all isDigit ds
        \<and> ws \<noteq> [] \<and> list_all isWhiteSpace ws \<and> map canonicalize w = ''YEAR''"
    by (rule exI [of _ "takeWhile isDigit s"],
        rule exI [of _ "takeWhile isWhiteSpace (dropWhile isDigit s)"],
        rule exI [of _ "take 4 (dropWhile isWhiteSpace (dropWhile isDigit s))"],
        rule exI [of _ "drop 4 (dropWhile isWhiteSpace (dropWhile isDigit s))"]) (rule c)
next
  assume "\<exists>ds ws w rest. s = ds @ ws @ w @ rest \<and> ds \<noteq> [] \<and> list_all isDigit ds
        \<and> ws \<noteq> [] \<and> list_all isWhiteSpace ws \<and> map canonicalize w = ''YEAR''"
  then obtain ds ws w rest where s: "s = ds @ ws @ w @ rest" and ds: "ds \<noteq> []" "list_all isDigit ds"
    and ws: "ws \<noteq> []" "list_all isWhiteSpace ws" and w: "map canonicalize w = ''YEAR''"
    by (elim exE conjE)
  from ws obtain c0 ws' where ws0: "ws = c0 # ws'" and c0: "isWhiteSpace c0"
    by (cases ws) simp_all
  from c0 have "\<not> isDigit c0" using isDigit_not_isWhiteSpace by blast
  with ws0 have "ws @ w @ rest = [] \<or> \<not> isDigit (hd (ws @ w @ rest))" by simp
  from takeWhile_run [OF ds(2) this]
  have 1: "takeWhile isDigit s = ds" "dropWhile isDigit s = ws @ w @ rest"
    by (simp_all only: s)
  from w have "length (map canonicalize w) = length ''YEAR''" by (simp only:)
  then have lw: "length w = 4" by simp
  then obtain c w' where cw: "w = c # w'" by (cases w) simp_all
  with w have "canonicalize c = CHR ''Y''" by simp
  then have "\<not> isWhiteSpace c" by (rule canonicalize_letter_not_space)
  with cw have "w @ rest = [] \<or> \<not> isWhiteSpace (hd (w @ rest))" by simp
  from takeWhile_run [OF ws(2) this]
  have 2: "takeWhile isWhiteSpace (ws @ w @ rest) = ws"
    "dropWhile isWhiteSpace (ws @ w @ rest) = w @ rest"
    by simp_all
  from lw have 3: "take 4 (w @ rest) = w" by simp
  have "takeWhile isDigit s \<noteq> [] \<and> takeWhile isWhiteSpace (dropWhile isDigit s) \<noteq> []
         \<and> map canonicalize (take 4 (dropWhile isWhiteSpace (dropWhile isDigit s))) = ''YEAR''"
    using ds(1) ws(1) w by (simp only: 1 2 3 simp_thms)
  then have "yearPhraseAt s \<noteq> None"
    by (subst yearPhraseAt_unfold) (simp only: if_True simp_thms option.distinct not_False_eq_True)
  then show "yearPhraseAt s \<noteq> None" .
qed


text \<open>
  The match of the date-range pattern at a position, said without the order of the search:
  four digits, white space or none, a hyphen, white space or none, and then four digits or
  seven letters that read \<open>PRESENT\<close> in any casing.
\<close>

lemma canonicalize_P_not_space:
  "canonicalize c = CHR ''P'' \<Longrightarrow> \<not> isWhiteSpace c"
  by (auto simp: canonicalize_def isWhiteSpace_def Let_def char_eval split: if_splits)

lemma dateRangeAt_unfold:
  "dateRangeAt s =
      (if length (take 4 s) = 4 \<and> list_all isDigit (take 4 s)
       then (case dropWhile isWhiteSpace (drop 4 s) of
               [] \<Rightarrow> None
             | c # r3 \<Rightarrow>
                 if c = CHR ''-''
                 then (if length (take 4 (dropWhile isWhiteSpace r3)) = 4
                          \<and> list_all isDigit (take 4 (dropWhile isWhiteSpace r3))
                       then Some (take 4 s @ takeWhile isWhiteSpace (drop 4 s) @ [c]
                              @ takeWhile isWhiteSpace r3 @ take 4 (dropWhile isWhiteSpace r3))
                       else if map canonicalize (take 7 (dropWhile isWhiteSpace r3)) = ''PRESENT''
                       then Some (take 4 s @ takeWhile isWhiteSpace (drop 4 s) @ [c]
                              @ takeWhile isWhiteSpace r3 @ take 7 (dropWhile isWhiteSpace r3))
                       else None)
                 else None)
       else None)"
  unfolding dateRangeAt_def Let_def by (rule refl)

lemma dateRangeAt_iff:
  "dateRangeAt s \<noteq> None \<longleftrightarrow>
     (\<exists>d1 w1 w2 e rest. s = d1 @ w1 @ ''-'' @ w2 @ e @ rest
        \<and> length d1 = 4 \<and> list_all isDigit d1
        \<and> list_all isWhiteSpace w1 \<and> list_all isWhiteSpace w2
        \<and> (length e = 4 \<and> list_all isDigit e \<or> map canonicalize e = ''PRESENT''))"
proof
  assume a: "dateRangeAt s \<noteq> None"
  define r2 where "r2 = dropWhile isWhiteSpace (drop 4 s)"
  define w1 where "w1 = takeWhile isWhiteSpace (drop 4 s)"
  note u = dateRangeAt_unfold [of s, folded r2_def w1_def]
  have d1: "length (take 4 s) = 4 \<and> list_all isDigit (take 4 s)"
  proof (rule ccontr)
    assume "\<not> ?thesis"
    then have "dateRangeAt s = None" by (subst u) (simp only: if_False)
    with a show False by simp
  qed
  obtain c r3 where r2: "r2 = c # r3"
  proof (cases r2)
    case Nil
    then have "dateRangeAt s = None" by (subst u) (simp only: list.case if_True if_False if_cancel)
    with a show ?thesis by simp
  next
    case (Cons c r3)
    with that show ?thesis .
  qed
  define r4 where "r4 = dropWhile isWhiteSpace r3"
  define w2 where "w2 = takeWhile isWhiteSpace r3"
  have v: "dateRangeAt s =
      (if c = CHR ''-''
       then (if length (take 4 r4) = 4 \<and> list_all isDigit (take 4 r4)
             then Some (take 4 s @ w1 @ [c] @ w2 @ take 4 r4)
             else if map canonicalize (take 7 r4) = ''PRESENT''
             then Some (take 4 s @ w1 @ [c] @ w2 @ take 7 r4)
             else None)
       else None)"
    using d1 by (subst u) (simp only: r2 list.case if_True r4_def w2_def simp_thms)
  have c: "c = CHR ''-''"
  proof (rule ccontr)
    assume "c \<noteq> CHR ''-''"
    then have "dateRangeAt s = None" by (subst v) (simp only: if_False)
    with a show False by simp
  qed
  have e: "length (take 4 r4) = 4 \<and> list_all isDigit (take 4 r4)
      \<or> map canonicalize (take 7 r4) = ''PRESENT''"
  proof (rule ccontr)
    assume "\<not> ?thesis"
    then have "\<not> (length (take 4 r4) = 4 \<and> list_all isDigit (take 4 r4))"
      and "map canonicalize (take 7 r4) \<noteq> ''PRESENT''"
      by (simp_all only: de_Morgan_disj simp_thms)
    then have "dateRangeAt s = None" by (subst v) (simp only: if_False if_cancel)
    with a show False by simp
  qed
  note r2 = r2 [unfolded c]
  note d1 = conjunct1 [OF d1] conjunct2 [OF d1]
  have s: "s = take 4 s @ w1 @ ''-'' @ w2 @ r4"
  proof -
    have "s = take 4 s @ drop 4 s" by simp
    also have "drop 4 s = w1 @ r2" by (simp add: w1_def r2_def)
    also have "r2 = ''-'' @ w2 @ r4" by (simp add: r2 w2_def r4_def)
    finally show ?thesis .
  qed
  have w: "list_all isWhiteSpace w1" "list_all isWhiteSpace w2"
    by (auto simp: w1_def w2_def list_all_iff dest: set_takeWhileD)
  from e show "\<exists>d1 w1 w2 e rest. s = d1 @ w1 @ ''-'' @ w2 @ e @ rest
        \<and> length d1 = 4 \<and> list_all isDigit d1
        \<and> list_all isWhiteSpace w1 \<and> list_all isWhiteSpace w2
        \<and> (length e = 4 \<and> list_all isDigit e \<or> map canonicalize e = ''PRESENT'')"
  proof
    assume "length (take 4 r4) = 4 \<and> list_all isDigit (take 4 r4)"
    moreover have "s = take 4 s @ w1 @ ''-'' @ w2 @ take 4 r4 @ drop 4 r4"
      using s by simp
    ultimately have "s = take 4 s @ w1 @ ''-'' @ w2 @ take 4 r4 @ drop 4 r4
        \<and> length (take 4 s) = 4 \<and> list_all isDigit (take 4 s)
        \<and> list_all isWhiteSpace w1 \<and> list_all isWhiteSpace w2
        \<and> (length (take 4 r4) = 4 \<and> list_all isDigit (take 4 r4)
            \<or> map canonicalize (take 4 r4) = ''PRESENT'')"
      using d1 w by (intro conjI disjI1) blast+
    then show ?thesis
      by (rule_tac x = "take 4 s" in exI, rule_tac x = w1 in exI, rule_tac x = w2 in exI,
          rule_tac x = "take 4 r4" in exI, rule_tac x = "drop 4 r4" in exI)
  next
    assume p: "map canonicalize (take 7 r4) = ''PRESENT''"
    moreover have "s = take 4 s @ w1 @ ''-'' @ w2 @ take 7 r4 @ drop 7 r4"
      using s by simp
    ultimately have "s = take 4 s @ w1 @ ''-'' @ w2 @ take 7 r4 @ drop 7 r4
        \<and> length (take 4 s) = 4 \<and> list_all isDigit (take 4 s)
        \<and> list_all isWhiteSpace w1 \<and> list_all isWhiteSpace w2
        \<and> (length (take 7 r4) = 4 \<and> list_all isDigit (take 7 r4)
            \<or> map canonicalize (take 7 r4) = ''PRESENT'')"
      using d1 w by (intro conjI disjI2) blast+
    then show ?thesis
      by (rule_tac x = "take 4 s" in exI, rule_tac x = w1 in exI, rule_tac x = w2 in exI,
          rule_tac x = "take 7 r4" in exI, rule_tac x = "drop 7 r4" in exI)
  qed
next
  assume "\<exists>d1 w1 w2 e rest. s = d1 @ w1 @ ''-'' @ w2 @ e @ rest
        \<and> length d1 = 4 \<and> list_all isDigit d1
        \<and> list_all isWhiteSpace w1 \<and> list_all isWhiteSpace w2
        \<and> (length e = 4 \<and> list_all isDigit e \<or> map canonicalize e = ''PRESENT'')"
  then obtain d1 w1 w2 e rest where s: "s = d1 @ w1 @ ''-'' @ w2 @ e @ rest"
    and d1: "length d1 = 4" "list_all isDigit d1"
    and w: "list_all isWhiteSpace w1" "list_all isWhiteSpace w2"
    and e: "length e = 4 \<and> list_all isDigit e \<or> map canonicalize e = ''PRESENT''"
    by (elim exE conjE)
  have t: "take 4 s = d1" "drop 4 s = w1 @ CHR ''-'' # w2 @ e @ rest"
    using d1(1) by (simp_all add: s)
  have "\<not> isWhiteSpace (CHR ''-'')" by (simp add: isWhiteSpace_def)
  then have "CHR ''-'' # w2 @ e @ rest = []
      \<or> \<not> isWhiteSpace (hd (CHR ''-'' # w2 @ e @ rest))" by simp
  from takeWhile_run [OF w(1) this]
  have 1: "takeWhile isWhiteSpace (w1 @ CHR ''-'' # w2 @ e @ rest) = w1"
    "dropWhile isWhiteSpace (w1 @ CHR ''-'' # w2 @ e @ rest) = CHR ''-'' # w2 @ e @ rest"
    by simp_all
  from e obtain c e' where ce: "e = c # e'" and c: "\<not> isWhiteSpace c"
  proof
    assume "length e = 4 \<and> list_all isDigit e"
    then obtain c e' where "e = c # e'" "isDigit c" by (cases e) auto
    with that show ?thesis by (blast dest: isDigit_not_isWhiteSpace)
  next
    assume p: "map canonicalize e = ''PRESENT''"
    then obtain c e' where "e = c # e'" by (cases e) auto
    with p that show ?thesis by (auto dest: canonicalize_P_not_space)
  qed
  then have "e @ rest = [] \<or> \<not> isWhiteSpace (hd (e @ rest))" by simp
  from takeWhile_run [OF w(2) this]
  have 2: "takeWhile isWhiteSpace (w2 @ e @ rest) = w2"
    "dropWhile isWhiteSpace (w2 @ e @ rest) = e @ rest"
    by simp_all
  from e have 3: "length (take 4 (e @ rest)) = 4 \<and> list_all isDigit (take 4 (e @ rest))
      \<or> map canonicalize (take 7 (e @ rest)) = ''PRESENT''"
  proof
    assume "length e = 4 \<and> list_all isDigit e"
    then show ?thesis by simp
  next
    assume p: "map canonicalize e = ''PRESENT''"
    then have "length (map canonicalize e) = length ''PRESENT''" by (simp only:)
    then have "length e = 7" by simp
    with p show ?thesis by simp
  qed
  define p1 where "p1 \<longleftrightarrow> length (take 4 (e @ rest)) = 4 \<and> list_all isDigit (take 4 (e @ rest))"
  define p2 where "p2 \<longleftrightarrow> map canonicalize (take 7 (e @ rest)) = ''PRESENT''"
  from 3 have p: "p1 \<or> p2" by (simp only: p1_def p2_def)
  have "dateRangeAt s =
      (if p1 then Some (d1 @ w1 @ ''-'' @ w2 @ take 4 (e @ rest))
       else if p2 then Some (d1 @ w1 @ ''-'' @ w2 @ take 7 (e @ rest))
       else None)"
    using d1 by (subst dateRangeAt_unfold) (simp add: t 1 2 p1_def p2_def del: take_append)
  with p show "dateRangeAt s \<noteq> None" by (cases p1; cases p2; simp)
qed









lemmas regex_eval =
  yearPhraseAt_def dateRangeAt_def Let_def isDigit_def isWhiteSpace_def canonicalize_def char_eval


section \<open>The catalog and the recommendations\<close>

lemma catalog_sizes:
  assumes "role \<in> set JOB_ROLES"
  shows "8 \<le> length (keywords role)" and "length (keywords role) \<le> 10"
    and "3 \<le> length (softSkills role)" and "length (softSkills role) \<le> 4"
    and "minYears role = 2 \<or> minYears role = 3 \<or> minYears role = 5"
  using assms by (auto simp: JOB_ROLES_def)

lemma fdiv_half: "n < 2 ^ 53 \<Longrightarrow> fdiv (of_nat n) 2 = of_nat n / 2"
proof (cases "n = 0")
  case True
  then show ?thesis by (simp add: fdiv_def fl_def)
next
  case False
  assume "n < 2 ^ 53"
  then have "int n < 2 ^ 53" by simp
  with False fl_repr [of "int n" "- 1"] show ?thesis
    by (simp add: fdiv_def power_int_minus_divide)
qed

lemma less_half_iff:
  assumes "n < 2 ^ 53"
  shows "(of_nat f :: rat) < fdiv (of_nat n) 2 \<longleftrightarrow> 2 * f < n"
proof -
  have "(of_nat f :: rat) < of_nat n / 2 \<longleftrightarrow> (of_nat (2 * f) :: rat) < of_nat n"
    by (simp add: pos_less_divide_eq mult.commute)
  also have "\<dots> \<longleftrightarrow> 2 * f < n" by (simp only: of_nat_less_iff)
  finally show ?thesis by (simp only: fdiv_half [OF assms])
qed

lemma unmatched_filter:
  "filter (\<lambda>k. k \<notin> set (filter P xs)) xs = filter (\<lambda>k. \<not> P k) xs"
  by (rule filter_cong) simp_all

lemma recommendations_length: "length (recommendations_of role text) = 6"
  by (simp add: recommendations_of_def)


lemma recommendations_of_eq:
  assumes "role \<in> set JOB_ROLES"
  shows "recommendations_of role text =
     [ if 2 * length (filter (\<lambda>k. sublist (toLowerCase k) (toLowerCase text)) (keywords role))
            < length (keywords role)
       then ''Add more technical keywords like ''
            @ join '', '' (take 2 (filter (\<lambda>k. \<not> sublist (toLowerCase k) (toLowerCase text))
                                          (keywords role)))
            @ ''.''
       else ''Great technical keyword density.'',
       if years_of text < minYears role
       then ''Highlight more relevant projects to compensate for '' @ digits_of (years_of text)
            @ '' years of experience (target: '' @ digits_of (minYears role) @ ''+).''
       else ''Experience level meets or exceeds role requirements.'',
       if \<not> sublist ''certification'' (toLowerCase text)
       then ''Consider adding industry-recognized certifications to boost credibility.''
       else ''Good certification profile.'',
       if length (filter (\<lambda>k. sublist (toLowerCase k) (toLowerCase text)) (softSkills role)) < 2
       then ''Elaborate more on soft skills like leadership or communication in your experience section.''
       else ''Soft skills are well-represented.'',
       ''Quantify your achievements with more metrics (e.g., '' @ [CHR 0x27]
         @ ''increased revenue by 20%'' @ [CHR 0x27] @ '').'',
       ''Ensure your summary section directly aligns with the specific job description.'' ]"
proof -
  from catalog_sizes(2) [OF assms] have "length (keywords role) < 2 ^ 53" by simp
  note h = less_half_iff [OF this]
  show ?thesis
    unfolding recommendations_of_def foundTechSkills_def foundSoftSkills_def normalizedText_def
      includes_str_iff_sublist unmatched_filter h
    by (rule refl)
qed

lemma two_unmatched:
  assumes "role \<in> set JOB_ROLES"
    and "2 * length (filter P (keywords role)) < length (keywords role)"
  shows "length (take 2 (filter (\<lambda>k. \<not> P k) (keywords role))) = 2"
proof -
  have "length (filter P (keywords role)) + length (filter (\<lambda>k. \<not> P k) (keywords role))
      = length (keywords role)"
    by (rule sum_length_filter_compl)
  with assms(2) catalog_sizes(1) [OF assms(1)] show ?thesis by simp
qed

text \<open>
  Claim C8. The recommendations are six strings in a fixed order. The first is the gap
  template, naming the first two technical keywords of the catalog order that the text
  lacks, exactly when fewer than half of the technical keywords are matched; the second is
  the experience template with the years and the minimum exactly when the years are below
  the minimum; the third suggests certifications exactly when the lower-cased text does not
  contain \<open>certification\<close>; the fourth suggests soft skills exactly when fewer than two
  soft-skill keywords are matched; the fifth and the sixth are fixed.
\<close>

theorem C8_six_recommendations_by_condition:
  "recommendations (analyzeResume env text roleId) =
     [ if 2 * length (filter (\<lambda>k. sublist (toLowerCase k) (toLowerCase text))
                        (keywords (resolveRole roleId)))
            < length (keywords (resolveRole roleId))
       then ''Add more technical keywords like ''
            @ join '', '' (take 2 (filter (\<lambda>k. \<not> sublist (toLowerCase k) (toLowerCase text))
                                          (keywords (resolveRole roleId))))
            @ ''.''
       else ''Great technical keyword density.'',
       if years (experience (analyzeResume env text roleId)) < minYears (resolveRole roleId)
       then ''Highlight more relevant projects to compensate for ''
            @ digits_of (years (experience (analyzeResume env text roleId)))
            @ '' years of experience (target: '' @ digits_of (minYears (resolveRole roleId))
            @ ''+).''
       else ''Experience level meets or exceeds role requirements.'',
       if \<not> sublist ''certification'' (toLowerCase text)
       then ''Consider adding industry-recognized certifications to boost credibility.''
       else ''Good certification profile.'',
       if length (filter (\<lambda>k. sublist (toLowerCase k) (toLowerCase text))
                    (softSkills (resolveRole roleId))) < 2
       then ''Elaborate more on soft skills like leadership or communication in your experience section.''
       else ''Soft skills are well-represented.'',
       ''Quantify your achievements with more metrics (e.g., '' @ [CHR 0x27]
         @ ''increased revenue by 20%'' @ [CHR 0x27] @ '').'',
       ''Ensure your summary section directly aligns with the specific job description.'' ]
   \<and> length (recommendations (analyzeResume env text roleId)) = 6
   \<and> (2 * length (filter (\<lambda>k. sublist (toLowerCase k) (toLowerCase text))
                     (keywords (resolveRole roleId)))
         < length (keywords (resolveRole roleId))
       \<longrightarrow> length (take 2 (filter (\<lambda>k. \<not> sublist (toLowerCase k) (toLowerCase text))
                                  (keywords (resolveRole roleId)))) = 2)
   \<and> (recommendations (analyzeResume env text roleId) ! 0 \<noteq> ''Great technical keyword density.''
       \<longleftrightarrow> 2 * length (filter (\<lambda>k. sublist (toLowerCase k) (toLowerCase text))
                           (keywords (resolveRole roleId)))
             < length (keywords (resolveRole roleId)))
   \<and> (recommendations (analyzeResume env text roleId) ! 1
         \<noteq> ''Experience level meets or exceeds role requirements.''
       \<longleftrightarrow> years (experience (analyzeResume env text roleId)) < minYears (resolveRole roleId))
   \<and> (recommendations (analyzeResume env text roleId) ! 2
         = ''Consider adding industry-recognized certifications to boost credibility.''
       \<longleftrightarrow> \<not> sublist ''certification'' (toLowerCase text))
   \<and> (recommendations (analyzeResume env text roleId) ! 3
         = ''Elaborate more on soft skills like leadership or communication in your experience section.''
       \<longleftrightarrow> length (filter (\<lambda>k. sublist (toLowerCase k) (toLowerCase text))
                       (softSkills (resolveRole roleId))) < 2)"
proof -
  let ?role = "resolveRole roleId"
  have cat: "?role \<in> set JOB_ROLES" by (rule resolveRole_in_catalog)
  have r: "recommendations (analyzeResume env text roleId) = recommendations_of ?role text"
    and y: "years (experience (analyzeResume env text roleId)) = years_of text"
    by (simp_all add: analyzeResume_def Let_def)
  note eq = recommendations_of_eq [OF cat, of "text"]
  have 1: "recommendations (analyzeResume env text roleId) ! 0 \<noteq> ''Great technical keyword density.''
       \<longleftrightarrow> 2 * length (filter (\<lambda>k. sublist (toLowerCase k) (toLowerCase text)) (keywords ?role))
             < length (keywords ?role)"
    unfolding r eq by simp
  have 2: "recommendations (analyzeResume env text roleId) ! 1
         \<noteq> ''Experience level meets or exceeds role requirements.''
       \<longleftrightarrow> years (experience (analyzeResume env text roleId)) < minYears ?role"
    unfolding r y eq by simp
  have 3: "recommendations (analyzeResume env text roleId) ! 2
         = ''Consider adding industry-recognized certifications to boost credibility.''
       \<longleftrightarrow> \<not> sublist ''certification'' (toLowerCase text)"
    unfolding r eq by simp
  have 4: "recommendations (analyzeResume env text roleId) ! 3
         = ''Elaborate more on soft skills like leadership or communication in your experience section.''
       \<longleftrightarrow> length (filter (\<lambda>k. sublist (toLowerCase k) (toLowerCase text)) (softSkills ?role)) < 2"
    unfolding r eq by simp
  have 5: "2 * length (filter (\<lambda>k. sublist (toLowerCase k) (toLowerCase text)) (keywords ?role))
         < length (keywords ?role)
       \<longrightarrow> length (take 2 (filter (\<lambda>k. \<not> sublist (toLowerCase k) (toLowerCase text))
                                  (keywords ?role))) = 2"
    using two_unmatched [OF cat] by blast
  have 6: "length (recommendations (analyzeResume env text roleId)) = 6"
    unfolding r by (rule recommendations_length)
  from eq have 0: "recommendations (analyzeResume env text roleId) = 
     [ if 2 * length (filter (\<lambda>k. sublist (toLowerCase k) (toLowerCase text))
                        (keywords (resolveRole roleId)))
            < length (keywords (resolveRole roleId))
       then ''Add more technical keywords like ''
            @ join '', '' (take 2 (filter (\<lambda>k. \<not> sublist (toLowerCase k) (toLowerCase text))
                                          (keywords (resolveRole roleId))))
            @ ''.''
       else ''Great technical keyword density.'',
       if years (experience (analyzeResume env text roleId)) < minYears (resolveRole roleId)
       then ''Highlight more relevant projects to compensate for ''
            @ digits_of (years (experience (analyzeResume env text roleId)))
            @ '' years of experience (target: '' @ digits_of (minYears (resolveRole roleId))
            @ ''+).''
       else ''Experience level meets or exceeds role requirements.'',
       if \<not> sublist ''certification'' (toLowerCase text)
       then ''Consider adding industry-recognized certifications to boost credibility.''
       else ''Good certification profile.'',
       if length (filter (\<lambda>k. sublist (toLowerCase k) (toLowerCase text))
                    (softSkills (resolveRole roleId))) < 2
       then ''Elaborate more on soft skills like leadership or communication in your experience section.''
       else ''Soft skills are well-represented.'',
       ''Quantify your achievements with more metrics (e.g., '' @ [CHR 0x27]
         @ ''increased revenue by 20%'' @ [CHR 0x27] @ '').'',
       ''Ensure your summary section directly aligns with the specific job description.'' ]"
    by (simp only: r y)
  from 0 6 5 1 2 3 4 show ?thesis by (intro conjI)
qed


theorem C8_witness:
  "recommendations (analyzeResume sampleEnv ''Vite and CSS, 1 year'' ''frontend'') =
     [ ''Add more technical keywords like React, TypeScript.'',
       ''Highlight more relevant projects to compensate for 1 years of experience (target: 3+).'',
       ''Consider adding industry-recognized certifications to boost credibility.'',
       ''Elaborate more on soft skills like leadership or communication in your experience section.'',
       ''Quantify your achievements with more metrics (e.g., '' @ [CHR 0x27]
         @ ''increased revenue by 20%'' @ [CHR 0x27] @ '').'',
       ''Ensure your summary section directly aligns with the specific job description.'' ]
   \<and> 2 * length (filter (\<lambda>k. sublist (toLowerCase k) (toLowerCase ''Vite and CSS, 1 year''))
                    (keywords (resolveRole ''frontend'')))
       < length (keywords (resolveRole ''frontend''))"
proof -
  let ?T = "''Vite and CSS, 1 year''"
  have kw: "keywords (resolveRole ''frontend'')
      = [''React'', ''TypeScript'', ''Tailwind'', ''Next.js'', ''Vite'', ''CSS'', ''HTML'',
         ''JavaScript'', ''Redux'', ''Testing Library'']"
    "softSkills (resolveRole ''frontend'')
      = [''Communication'', ''Teamwork'', ''Problem Solving'', ''Agile'']"
    "minYears (resolveRole ''frontend'') = 3"
    by (simp_all add: resolveRole_def JOB_ROLES_def)
  have yrs: "years (experience (analyzeResume sampleEnv ?T ''frontend'')) = 1"
    by (simp add: analyzeResume_def Let_def years_of_def yearMatches_def regex_eval
        yearsOfMatch_def parseInt_def split0_def decimal_def Math_max_def)
  have d: "digits_of (Suc 0) = ''1''" "digits_of 3 = ''3''"
    by (simp_all add: digits_of.simps char_eval)
  have m: "filter (\<lambda>k. sublist (toLowerCase k) (toLowerCase ?T)) (keywords (resolveRole ''frontend''))
      = [''Vite'', ''CSS'']"
    "filter (\<lambda>k. \<not> sublist (toLowerCase k) (toLowerCase ?T)) (keywords (resolveRole ''frontend''))
      = [''React'', ''TypeScript'', ''Tailwind'', ''Next.js'', ''HTML'', ''JavaScript'', ''Redux'',
         ''Testing Library'']"
    "filter (\<lambda>k. sublist (toLowerCase k) (toLowerCase ?T)) (softSkills (resolveRole ''frontend''))
      = []"
    "\<not> sublist ''certification'' (toLowerCase ?T)"
    by (simp_all add: kw toLowerCase_def toLowerCase_char_def char_eval
        includes_str_iff_sublist [symmetric])
  have "recommendations (analyzeResume sampleEnv ?T ''frontend'') =
     [ ''Add more technical keywords like React, TypeScript.'',
       ''Highlight more relevant projects to compensate for 1 years of experience (target: 3+).'',
       ''Consider adding industry-recognized certifications to boost credibility.'',
       ''Elaborate more on soft skills like leadership or communication in your experience section.'',
       ''Quantify your achievements with more metrics (e.g., '' @ [CHR 0x27]
         @ ''increased revenue by 20%'' @ [CHR 0x27] @ '').'',
       ''Ensure your summary section directly aligns with the specific job description.'' ]"
    by (rule trans [OF C8_six_recommendations_by_condition [of sampleEnv ?T "''frontend''", THEN conjunct1]],
        unfold m yrs) (simp add: kw d m)
  moreover have "2 * length (filter (\<lambda>k. sublist (toLowerCase k) (toLowerCase ?T))
                    (keywords (resolveRole ''frontend'')))
       < length (keywords (resolveRole ''frontend''))"
    unfolding m by (simp add: kw)
  ultimately show ?thesis by (rule conjI)
qed

section \<open>The scores in binary64\<close>

lemma fl_0: "fl 0 = 0"
  by (simp add: fl_def)

lemma fl_1: "fl 1 = 1"
  using fl_of_nat [of 1] by simp

lemma fl_100: "fl 100 = 100"
  using fl_of_nat [of 100] by simp

text \<open>
  The quotients \<^verbatim>\<open>years / role.minYears\<close> below 1 that the catalog allows (its minima are 2, 3
  and 5) and the quotients \<^verbatim>\<open>foundTechSkills.length / 10\<close>, each multiplied by 100 as the code
  does, with both roundings worked out.
\<close>

lemma ratio_1_2: "fmul (fdiv 1 2) 100 = 50"
proof -
  have 1: "fl (1 / 2) = 1 / 2"
    by (rule fl_eqI [where e = "- 1" and n = 4503599627370496]) (simp_all add: power_int_minus_divide)
  have 2: "fl (1 / 2 * 100) = 50"
    by (rule fl_eqI [where e = "5" and n = 7036874417766400]) (simp_all add: power_int_minus_divide)
  show ?thesis by (simp only: fmul_def fdiv_def 1 2)
qed

lemma ratio_1_3: "fmul (fdiv 1 3) 100 = 2345624805922133 / 70368744177664"
proof -
  have 1: "fl (1 / 3) = 6004799503160661 / 18014398509481984"
    by (rule fl_eqI [where e = "- 2" and n = 6004799503160661]) (simp_all add: power_int_minus_divide)
  have 2: "fl (6004799503160661 / 18014398509481984 * 100) = 2345624805922133 / 70368744177664"
    by (rule fl_eqI [where e = "5" and n = 4691249611844266]) (simp_all add: power_int_minus_divide)
  show ?thesis by (simp only: fmul_def fdiv_def 1 2)
qed

lemma ratio_2_3: "fmul (fdiv 2 3) 100 = 2345624805922133 / 35184372088832"
proof -
  have 1: "fl (2 / 3) = 6004799503160661 / 9007199254740992"
    by (rule fl_eqI [where e = "- 1" and n = 6004799503160661]) (simp_all add: power_int_minus_divide)
  have 2: "fl (6004799503160661 / 9007199254740992 * 100) = 2345624805922133 / 35184372088832"
    by (rule fl_eqI [where e = "6" and n = 4691249611844266]) (simp_all add: power_int_minus_divide)
  show ?thesis by (simp only: fmul_def fdiv_def 1 2)
qed

lemma ratio_1_5: "fmul (fdiv 1 5) 100 = 20"
proof -
  have 1: "fl (1 / 5) = 3602879701896397 / 18014398509481984"
    by (rule fl_eqI [where e = "- 3" and n = 7205759403792794]) (simp_all add: power_int_minus_divide)
  have 2: "fl (3602879701896397 / 18014398509481984 * 100) = 20"
    by (rule fl_eqI [where e = "4" and n = 5629499534213120]) (simp_all add: power_int_minus_divide)
  show ?thesis by (simp only: fmul_def fdiv_def 1 2)
qed

lemma ratio_2_5: "fmul (fdiv 2 5) 100 = 40"
proof -
  have 1: "fl (2 / 5) = 3602879701896397 / 9007199254740992"
    by (rule fl_eqI [where e = "- 2" and n = 7205759403792794]) (simp_all add: power_int_minus_divide)
  have 2: "fl (3602879701896397 / 9007199254740992 * 100) = 40"
    by (rule fl_eqI [where e = "5" and n = 5629499534213120]) (simp_all add: power_int_minus_divide)
  show ?thesis by (simp only: fmul_def fdiv_def 1 2)
qed

lemma ratio_3_5: "fmul (fdiv 3 5) 100 = 60"
proof -
  have 1: "fl (3 / 5) = 5404319552844595 / 9007199254740992"
    by (rule fl_eqI [where e = "- 1" and n = 5404319552844595]) (simp_all add: power_int_minus_divide)
  have 2: "fl (5404319552844595 / 9007199254740992 * 100) = 60"
    by (rule fl_eqI [where e = "5" and n = 8444249301319680]) (simp_all add: power_int_minus_divide)
  show ?thesis by (simp only: fmul_def fdiv_def 1 2)
qed

lemma ratio_4_5: "fmul (fdiv 4 5) 100 = 80"
proof -
  have 1: "fl (4 / 5) = 3602879701896397 / 4503599627370496"
    by (rule fl_eqI [where e = "- 1" and n = 7205759403792794]) (simp_all add: power_int_minus_divide)
  have 2: "fl (3602879701896397 / 4503599627370496 * 100) = 80"
    by (rule fl_eqI [where e = "6" and n = 5629499534213120]) (simp_all add: power_int_minus_divide)
  show ?thesis by (simp only: fmul_def fdiv_def 1 2)
qed










lemma relevance_reached:
  assumes "0 < m" and "m \<le> y"
  shows "min 100 (fmul (fdiv (of_nat y) (of_nat m)) 100) = 100"
proof -
  from assms have "(1::rat) \<le> of_nat y / of_nat m" by (simp add: pos_le_divide_eq)
  then have "fl 1 \<le> fl (of_nat y / of_nat m)" by (intro fl_mono) simp_all
  then have "1 \<le> fdiv (of_nat y) (of_nat m)" by (simp only: fl_1 fdiv_def)
  then have "(100::rat) \<le> fdiv (of_nat y) (of_nat m) * 100" by simp
  then have "fl 100 \<le> fl (fdiv (of_nat y) (of_nat m) * 100)" by (intro fl_mono) simp_all
  then have "100 \<le> fmul (fdiv (of_nat y) (of_nat m)) 100" by (simp only: fl_100 fmul_def)
  then show ?thesis by simp
qed

lemma relevance_zero: "fmul (fdiv 0 m) 100 = 0"
  by (simp add: fmul_def fdiv_def fl_0)

lemma floor_relevance_catalog:
  assumes "m = 2 \<or> m = 3 \<or> m = 5"
  shows "\<lfloor>min 100 (fmul (fdiv (of_nat y) (of_nat m)) 100)\<rfloor> = min 100 (int (100 * y div m))"
proof (cases "m \<le> y")
  case True
  from assms have m: "0 < m" by auto
  from True m have "100 * m div m \<le> 100 * y div m" by (intro div_le_mono) simp
  with m have "100 \<le> 100 * y div m" by simp
  then show ?thesis by (simp add: relevance_reached [OF m True])
next
  case False
  with assms consider "y = 0" | "y = 1" "m = 2" | "y = 1" "m = 3" | "y = 2" "m = 3"
    | "y = 1" "m = 5" | "y = 2" "m = 5" | "y = 3" "m = 5" | "y = 4" "m = 5"
    by (elim disjE) (simp_all, linarith+)
  then show ?thesis
  proof cases
    case 1
    then show ?thesis by (simp add: relevance_zero)
  next
    case 2
    then show ?thesis by (simp add: ratio_1_2)
  next
    case 3
    then show ?thesis by (simp add: ratio_1_3) (rule floor_unique; simp)
  next
    case 4
    then show ?thesis by (simp add: ratio_2_3) (rule floor_unique; simp)
  next
    case 5
    then show ?thesis by (simp add: ratio_1_5)
  next
    case 6
    then show ?thesis by (simp add: ratio_2_5)
  next
    case 7
    then show ?thesis by (simp add: ratio_3_5)
  next
    case 8
    then show ?thesis by (simp add: ratio_4_5)
  qed
qed


lemma relevance_analyzeResume:
  "relevance (experience (analyzeResume env text roleId))
     = \<lfloor>experienceRelevance (resolveRole roleId) text\<rfloor>"
  "experience_bd (breakdown (analyzeResume env text roleId))
     = \<lfloor>experienceRelevance (resolveRole roleId) text\<rfloor>"
  "years (experience (analyzeResume env text roleId)) = years_of text"
  by (simp_all add: analyzeResume_def Let_def)

lemma years_of_2_years: "years_of ''2 years'' = 2"
  by (simp add: years_of_def yearMatches_def regex_eval yearsOfMatch_def parseInt_def split0_def
      decimal_def Math_max_def)

lemma resolveRole_frontend: "resolveRole ''frontend'' = JOB_ROLES ! 0"
  by (simp add: resolveRole_def JOB_ROLES_def)

text \<open>
  Claim C3, as the specification states it, fails: the text \<^verbatim>\<open>2 years\<close> under the role
  \<^verbatim>\<open>frontend\<close> (minimum 3) has the relevance 66, the floor of 66.67, where rounding to the
  nearest integer gives 67.
\<close>

theorem C3_counterexample:
  "years (experience (analyzeResume sampleEnv ''2 years'' ''frontend'')) = 2
   \<and> minYears (resolveRole ''frontend'') = 3
   \<and> relevance (experience (analyzeResume sampleEnv ''2 years'' ''frontend'')) = 66
   \<and> relevance_spec 2 3 = 67
   \<and> relevance (experience (analyzeResume sampleEnv ''2 years'' ''frontend''))
       \<noteq> relevance_spec (years (experience (analyzeResume sampleEnv ''2 years'' ''frontend'')))
           (minYears (resolveRole ''frontend''))"
proof -
  have y: "years (experience (analyzeResume sampleEnv ''2 years'' ''frontend'')) = 2"
    by (simp only: relevance_analyzeResume years_of_2_years)
  have m: "minYears (resolveRole ''frontend'') = 3"
    by (simp add: resolveRole_frontend JOB_ROLES_def)
  have "relevance (experience (analyzeResume sampleEnv ''2 years'' ''frontend''))
      = \<lfloor>min 100 (fmul (fdiv (of_nat 2) (of_nat 3)) 100)\<rfloor>"
    by (simp only: relevance_analyzeResume experienceRelevance_def years_of_2_years m)
  also have "\<dots> = min 100 (int (100 * 2 div 3))"
    by (rule floor_relevance_catalog) simp
  also have "\<dots> = 66" by simp
  finally have r: "relevance (experience (analyzeResume sampleEnv ''2 years'' ''frontend'')) = 66" .
  have "round (200 / 3 :: rat) = 67"
    unfolding round_def by (rule floor_unique) simp_all
  then have s: "relevance_spec 2 3 = 67" by (simp add: relevance_spec_def)
  from y m r s show ?thesis by simp
qed

text \<open>
  Claim C3, amended. For every text and \<^verbatim>\<open>roleId\<close>, the relevance of the result is the floor
  of \<^verbatim>\<open>Math.min(100, (years / role.minYears) * 100)\<close>, which for the minima of the catalog
  (2, 3 and 5, all at least 1) is \<open>min(100, floor(100 * years / minimumYears))\<close> in exact
  arithmetic; \<^verbatim>\<open>breakdown.experience\<close> is the same integer.
\<close>

theorem C3_relevance_is_floor:
  "relevance (experience (analyzeResume env text roleId))
     = \<lfloor>min 100 (fmul (fdiv (of_nat (years (experience (analyzeResume env text roleId))))
                            (of_nat (minYears (resolveRole roleId)))) 100)\<rfloor>
   \<and> relevance (experience (analyzeResume env text roleId))
     = min 100 (int (100 * years (experience (analyzeResume env text roleId))
                  div minYears (resolveRole roleId)))
   \<and> experience_bd (breakdown (analyzeResume env text roleId))
     = relevance (experience (analyzeResume env text roleId))
   \<and> 1 \<le> minYears (resolveRole roleId)"
proof -
  from catalog_sizes(5) [OF resolveRole_in_catalog [of roleId]]
  have m: "minYears (resolveRole roleId) = 2 \<or> minYears (resolveRole roleId) = 3
      \<or> minYears (resolveRole roleId) = 5" .
  then have "1 \<le> minYears (resolveRole roleId)" by auto
  with floor_relevance_catalog [OF m, of "years_of text"] show ?thesis
    by (simp add: relevance_analyzeResume experienceRelevance_def)
qed

theorem C3_witness:
  "relevance (experience (analyzeResume sampleEnv ''2 years'' ''frontend'')) = 66
   \<and> experience_bd (breakdown (analyzeResume sampleEnv ''2 years'' ''frontend'')) = 66"
proof -
  have m: "minYears (resolveRole ''frontend'') = 3"
    by (simp add: resolveRole_frontend JOB_ROLES_def)
  from C3_relevance_is_floor [of sampleEnv "''2 years''" "''frontend''"]
  show ?thesis
    by (simp add: relevance_analyzeResume(3) years_of_2_years m)
qed

section \<open>The overall score and the skills breakdown\<close>







lemma score_analyzeResume:
  "score (analyzeResume env text roleId) = overallScore (resolveRole roleId) text"
  "skills_bd (breakdown (analyzeResume env text roleId))
     = \<lfloor>fdiv (fadd (skillsScore (resolveRole roleId) text)
                     (softSkillsScore (resolveRole roleId) text)) 2\<rfloor>"
  "education_bd (breakdown (analyzeResume env text roleId)) = educationScore text"
  "degrees (education (analyzeResume env text roleId)) = degrees_of text"
  by (simp_all add: analyzeResume_def Let_def)








lemma frontend_role:
  "keywords (resolveRole ''frontend'')
     = [''React'', ''TypeScript'', ''Tailwind'', ''Next.js'', ''Vite'', ''CSS'', ''HTML'',
        ''JavaScript'', ''Redux'', ''Testing Library'']"
  "softSkills (resolveRole ''frontend'')
     = [''Communication'', ''Teamwork'', ''Problem Solving'', ''Agile'']"
  "minYears (resolveRole ''frontend'') = 3"
  by (simp_all add: resolveRole_def JOB_ROLES_def)


section \<open>Ranges of the scores and of the proficiencies\<close>

lemma ratio_bounds:
  assumes "a \<le> b"
  shows "0 \<le> fmul (fdiv (of_nat a) (of_nat b)) 100"
    and "fmul (fdiv (of_nat a) (of_nat b)) 100 \<le> 100"
proof -
  have q0: "(0::rat) \<le> of_nat a / of_nat b" by simp
  then have f0: "0 \<le> fdiv (of_nat a) (of_nat b)" unfolding fdiv_def by (rule fl_nonneg)
  then have "0 \<le> fdiv (of_nat a) (of_nat b) * 100" by simp
  then show "0 \<le> fmul (fdiv (of_nat a) (of_nat b)) 100" unfolding fmul_def by (rule fl_nonneg)
  from assms have "(of_nat a :: rat) / of_nat b \<le> 1"
    by (cases "b = 0") (simp_all add: divide_le_eq_1)
  with q0 have "fl (of_nat a / of_nat b) \<le> fl 1" by (rule fl_mono)
  then have "fdiv (of_nat a) (of_nat b) \<le> 1" by (simp only: fdiv_def fl_1)
  then have "fdiv (of_nat a) (of_nat b) * 100 \<le> 100" by simp
  with f0 have "fl (fdiv (of_nat a) (of_nat b) * 100) \<le> fl 100" by (intro fl_mono) simp_all
  then show "fmul (fdiv (of_nat a) (of_nat b)) 100 \<le> 100" by (simp only: fmul_def fl_100)
qed

lemma skillsScore_bounds: "0 \<le> skillsScore role text" "skillsScore role text \<le> 100"
  unfolding skillsScore_def by (rule ratio_bounds; simp add: foundTechSkills_def)+

lemma softSkillsScore_bounds: "0 \<le> softSkillsScore role text" "softSkillsScore role text \<le> 100"
  unfolding softSkillsScore_def by (rule ratio_bounds; simp add: foundSoftSkills_def)+

lemma experienceRelevance_bounds:
  "0 \<le> experienceRelevance role text" "experienceRelevance role text \<le> 100"
proof -
  have "(0::rat) \<le> of_nat (years_of text) / of_nat (minYears role)" by simp
  then have "0 \<le> fdiv (of_nat (years_of text)) (of_nat (minYears role))"
    unfolding fdiv_def by (rule fl_nonneg)
  then have "0 \<le> fdiv (of_nat (years_of text)) (of_nat (minYears role)) * 100" by simp
  then have "0 \<le> fmul (fdiv (of_nat (years_of text)) (of_nat (minYears role))) 100"
    unfolding fmul_def by (rule fl_nonneg)
  then show "0 \<le> experienceRelevance role text" by (simp add: experienceRelevance_def)
  show "experienceRelevance role text \<le> 100" by (simp add: experienceRelevance_def)
qed

lemma educationScore_cases: "educationScore text = 50 \<or> educationScore text = 100"
  by (simp add: educationScore_def)

lemma fl_round_numbers: "fl 20 = 20" "fl 30 = 30" "fl 50 = 50" "fl 80 = 80" "fl 200 = 200"
  using fl_of_nat [of 20] fl_of_nat [of 30] fl_of_nat [of 50] fl_of_nat [of 80] fl_of_nat [of 200]
  by simp_all

lemma weighted_sum_bounds:
  assumes s: "0 \<le> s" "s \<le> 100" and r: "0 \<le> r" "r \<le> 100" and e: "0 \<le> e" "e \<le> 100"
  shows "0 \<le> fadd (fadd (fmul s (fl (5 / 10))) (fmul r (fl (3 / 10)))) (fmul e (fl (2 / 10)))"
    and "fadd (fadd (fmul s (fl (5 / 10))) (fmul r (fl (3 / 10)))) (fmul e (fl (2 / 10))) \<le> 100"
proof -
  let ?c3 = "5404319552844595 / 18014398509481984 :: rat"
  let ?c2 = "3602879701896397 / 18014398509481984 :: rat"
  define t1 where "t1 = fl (s * (1 / 2))"
  define t2 where "t2 = fl (r * ?c3)"
  define t3 where "t3 = fl (e * ?c2)"
  have eq: "fadd (fadd (fmul s (fl (5 / 10))) (fmul r (fl (3 / 10)))) (fmul e (fl (2 / 10)))
      = fl (fl (t1 + t2) + t3)"
    by (simp only: fadd_def fmul_def fl_half fl_3_10 fl_2_10 t1_def t2_def t3_def)
  have t1: "0 \<le> t1" "t1 \<le> 50"
  proof -
    show "0 \<le> t1" unfolding t1_def using s(1) by (intro fl_nonneg) simp
    have "fl (s * (1 / 2)) \<le> fl 50" using s by (intro fl_mono) simp_all
    then show "t1 \<le> 50" by (simp only: t1_def fl_round_numbers)
  qed
  have t2: "0 \<le> t2" "t2 \<le> 30"
  proof -
    show "0 \<le> t2" unfolding t2_def using r(1) by (intro fl_nonneg) simp
    have "fl (r * ?c3) \<le> fl (100 * ?c3)" using r by (intro fl_mono) simp_all
    then show "t2 \<le> 30" by (simp only: t2_def fl_100_c3)
  qed
  have t3: "0 \<le> t3" "t3 \<le> 20"
  proof -
    show "0 \<le> t3" unfolding t3_def using e(1) by (intro fl_nonneg) simp
    have "fl (e * ?c2) \<le> fl (100 * ?c2)" using e by (intro fl_mono) simp_all
    then show "t3 \<le> 20" by (simp only: t3_def fl_100_c2)
  qed
  have t12: "0 \<le> fl (t1 + t2)" "fl (t1 + t2) \<le> 80"
  proof -
    show "0 \<le> fl (t1 + t2)" using t1(1) t2(1) by (intro fl_nonneg) simp
    have "fl (t1 + t2) \<le> fl 80" using t1 t2 by (intro fl_mono) simp_all
    then show "fl (t1 + t2) \<le> 80" by (simp only: fl_round_numbers)
  qed
  show "0 \<le> fadd (fadd (fmul s (fl (5 / 10))) (fmul r (fl (3 / 10)))) (fmul e (fl (2 / 10)))"
    unfolding eq using t12(1) t3(1) by (intro fl_nonneg) simp
  have "fl (fl (t1 + t2) + t3) \<le> fl 100" using t12 t3 by (intro fl_mono) simp_all
  then show "fadd (fadd (fmul s (fl (5 / 10))) (fmul r (fl (3 / 10)))) (fmul e (fl (2 / 10))) \<le> 100"
    by (simp only: eq fl_100)
qed

lemma overallScore_bounds: "0 \<le> overallScore role text" "overallScore role text \<le> 100"
proof -
  have e: "(0::rat) \<le> of_int (educationScore text)" "(of_int (educationScore text) :: rat) \<le> 100"
    using educationScore_cases [of "text"] by auto
  note b = weighted_sum_bounds [OF skillsScore_bounds [of role "text"]
      experienceRelevance_bounds [of role "text"] e]
  from b(1) show "0 \<le> overallScore role text" by (simp add: overallScore_def)
  from b(2) have "overallScore role text \<le> \<lfloor>100 :: rat\<rfloor>"
    unfolding overallScore_def by (rule floor_mono)
  then show "overallScore role text \<le> 100" by simp
qed

lemma mean_bounds:
  assumes "0 \<le> s" "s \<le> 100" "0 \<le> t" "t \<le> 100"
  shows "0 \<le> fdiv (fadd s t) 2" "fdiv (fadd s t) 2 \<le> 100"
proof -
  have a0: "0 \<le> fl (s + t)" using assms by (intro fl_nonneg) simp
  have "fl (s + t) \<le> fl 200" using assms by (intro fl_mono) simp_all
  then have a1: "fl (s + t) \<le> 200" by (simp only: fl_round_numbers)
  show "0 \<le> fdiv (fadd s t) 2" unfolding fdiv_def fadd_def using a0 by (intro fl_nonneg) simp
  have "fl (fl (s + t) / 2) \<le> fl 100" using a0 a1 by (intro fl_mono) simp_all
  then show "fdiv (fadd s t) 2 \<le> 100" by (simp only: fdiv_def fadd_def fl_100)
qed


lemma skills_of_cases:
  assumes "s \<in> set (skills_of rnd role text)"
  shows "(\<exists>i. type s = technical \<and> proficiency s = \<lfloor>fmul (rnd i) 30\<rfloor> + 70)
       \<or> (\<exists>i. type s = soft \<and> proficiency s = \<lfloor>fmul (rnd i) 20\<rfloor> + 80)"
  using assms by (auto simp: skills_of_def)

lemma skills_of_proficiency:
  assumes "\<forall>i. unitDraw (rnd i)" and "s \<in> set (skills_of rnd role text)"
  shows "(type s = technical \<and> 70 \<le> proficiency s \<and> proficiency s \<le> 99)
       \<or> (type s = soft \<and> 80 \<le> proficiency s \<and> proficiency s \<le> 99)"
proof -
  from assms(1) have d: "fl (rnd i) = rnd i" "0 \<le> rnd i" "rnd i < 1" for i
    by (simp_all add: unitDraw_def)
  from skills_of_cases [OF assms(2)] show ?thesis
  proof (elim disjE exE conjE)
    fix i
    assume "type s = technical" and "proficiency s = \<lfloor>fmul (rnd i) 30\<rfloor> + 70"
    with floor_random_30 [OF d, of i] show ?thesis by simp
  next
    fix i
    assume "type s = soft" and "proficiency s = \<lfloor>fmul (rnd i) 20\<rfloor> + 80"
    with floor_random_20 [OF d, of i] show ?thesis by simp
  qed
qed

text \<open>
  Claim C1. For every text and \<^verbatim>\<open>roleId\<close>, the overall score and the three entries of the
  breakdown are integers from 0 to 100. When every random draw is a result of
  \<^verbatim>\<open>Math.random()\<close> (a binary64 value at least 0 and below 1), the proficiency of every
  technical skill is from 70 to 99 and that of every soft skill from 80 to 99, so every
  proficiency is from 0 to 100.
\<close>

theorem C1_scores_and_proficiencies_in_range:
  "0 \<le> score (analyzeResume env text roleId) \<and> score (analyzeResume env text roleId) \<le> 100
   \<and> 0 \<le> skills_bd (breakdown (analyzeResume env text roleId))
   \<and> skills_bd (breakdown (analyzeResume env text roleId)) \<le> 100
   \<and> 0 \<le> experience_bd (breakdown (analyzeResume env text roleId))
   \<and> experience_bd (breakdown (analyzeResume env text roleId)) \<le> 100
   \<and> 0 \<le> education_bd (breakdown (analyzeResume env text roleId))
   \<and> education_bd (breakdown (analyzeResume env text roleId)) \<le> 100
   \<and> ((\<forall>i. unitDraw (random env i)) \<longrightarrow>
        (\<forall>s \<in> set (skills (analyzeResume env text roleId)).
           0 \<le> proficiency s \<and> proficiency s \<le> 100
           \<and> (type s = technical \<longrightarrow> 70 \<le> proficiency s \<and> proficiency s \<le> 99)
           \<and> (type s = soft \<longrightarrow> 80 \<le> proficiency s \<and> proficiency s \<le> 99)))"
proof -
  let ?role = "resolveRole roleId"
  have sc: "0 \<le> score (analyzeResume env text roleId)" "score (analyzeResume env text roleId) \<le> 100"
    using overallScore_bounds [of ?role "text"] by (simp_all add: score_analyzeResume)
  note m = mean_bounds [OF skillsScore_bounds [of ?role "text"] softSkillsScore_bounds [of ?role "text"]]
  from m(2) have "\<lfloor>fdiv (fadd (skillsScore ?role text) (softSkillsScore ?role text)) 2\<rfloor>
      \<le> \<lfloor>100 :: rat\<rfloor>"
    by (rule floor_mono)
  with m(1) have sk: "0 \<le> skills_bd (breakdown (analyzeResume env text roleId))"
    "skills_bd (breakdown (analyzeResume env text roleId)) \<le> 100"
    by (simp_all add: score_analyzeResume)
  note x = experienceRelevance_bounds [of ?role "text"]
  from x(2) have "\<lfloor>experienceRelevance ?role text\<rfloor> \<le> \<lfloor>100 :: rat\<rfloor>" by (rule floor_mono)
  with x(1) have ex: "0 \<le> experience_bd (breakdown (analyzeResume env text roleId))"
    "experience_bd (breakdown (analyzeResume env text roleId)) \<le> 100"
    by (simp_all add: relevance_analyzeResume)
  have ed: "0 \<le> education_bd (breakdown (analyzeResume env text roleId))"
    "education_bd (breakdown (analyzeResume env text roleId)) \<le> 100"
    using educationScore_cases [of "text"] by (auto simp: score_analyzeResume)
  have sk_eq: "skills (analyzeResume env text roleId) = skills_of (random env) ?role text"
    by (simp add: analyzeResume_def Let_def)
  have pr: "(\<forall>i. unitDraw (random env i)) \<longrightarrow>
        (\<forall>s \<in> set (skills (analyzeResume env text roleId)).
           0 \<le> proficiency s \<and> proficiency s \<le> 100
           \<and> (type s = technical \<longrightarrow> 70 \<le> proficiency s \<and> proficiency s \<le> 99)
           \<and> (type s = soft \<longrightarrow> 80 \<le> proficiency s \<and> proficiency s \<le> 99))"
  proof (intro impI ballI)
    fix s
    assume "\<forall>i. unitDraw (random env i)" and "s \<in> set (skills (analyzeResume env text roleId))"
    then have "(type s = technical \<and> 70 \<le> proficiency s \<and> proficiency s \<le> 99)
       \<or> (type s = soft \<and> 80 \<le> proficiency s \<and> proficiency s \<le> 99)"
      unfolding sk_eq by (rule skills_of_proficiency)
    then show "0 \<le> proficiency s \<and> proficiency s \<le> 100
           \<and> (type s = technical \<longrightarrow> 70 \<le> proficiency s \<and> proficiency s \<le> 99)
           \<and> (type s = soft \<longrightarrow> 80 \<le> proficiency s \<and> proficiency s \<le> 99)"
      by auto
  qed
  from sc sk ex ed pr show ?thesis by (intro conjI)
qed

theorem C1_witness:
  "(\<forall>i. unitDraw (random sampleEnv i))
   \<and> map (\<lambda>s. (name s, type s, proficiency s))
        (skills (analyzeResume sampleEnv ''React Agile'' ''frontend''))
       = [(''React'', technical, 85), (''Agile'', soft, 90)]
   \<and> list_all (\<lambda>s. 0 \<le> proficiency s \<and> proficiency s \<le> 100)
        (skills (analyzeResume sampleEnv ''React Agile'' ''frontend''))
   \<and> 0 \<le> score (analyzeResume sampleEnv ''React Agile'' ''frontend'')
   \<and> score (analyzeResume sampleEnv ''React Agile'' ''frontend'') \<le> 100"
proof -
  have h: "\<forall>i. unitDraw (random sampleEnv i)"
    using fl_repr [of 1 "- 1"] by (simp add: unitDraw_def sampleEnv_def power_int_minus_divide)
  note c1 = C1_scores_and_proficiencies_in_range [of sampleEnv "''React Agile''" "''frontend''"]
  from c1 h have "\<forall>s \<in> set (skills (analyzeResume sampleEnv ''React Agile'' ''frontend'')).
      0 \<le> proficiency s \<and> proficiency s \<le> 100"
    by blast
  then have l: "list_all (\<lambda>s. 0 \<le> proficiency s \<and> proficiency s \<le> 100)
        (skills (analyzeResume sampleEnv ''React Agile'' ''frontend''))"
    by (simp only: list_all_iff)
  have f: "foundTechSkills (resolveRole ''frontend'') ''React Agile'' = [''React'']"
    "foundSoftSkills (resolveRole ''frontend'') ''React Agile'' = [''Agile'']"
    by (simp_all add: foundTechSkills_def foundSoftSkills_def normalizedText_def frontend_role
        toLowerCase_def toLowerCase_char_def char_eval)
  have "fmul (1 / 2) 30 = 15" "fmul (1 / 2) 20 = 10"
    using fl_of_nat [of 15] fl_of_nat [of 10] by (simp_all add: fmul_def)
  then have p: "map (\<lambda>s. (name s, type s, proficiency s))
        (skills (analyzeResume sampleEnv ''React Agile'' ''frontend''))
       = [(''React'', technical, 85), (''Agile'', soft, 90)]"
    by (simp add: analyzeResume_def Let_def skills_of_def f sampleEnv_def enumerate_eq_zip)
  from c1 have "0 \<le> score (analyzeResume sampleEnv ''React Agile'' ''frontend'')"
    and "score (analyzeResume sampleEnv ''React Agile'' ''frontend'') \<le> 100"
    by blast+
  with h p l show ?thesis by (intro conjI)
qed

end
